theory Spec2Isabelle
  imports Main
begin

section \<open>Values, errors and the survey document\<close>

text \<open>
  The program keeps answers and schema defaults as Go \<^verbatim>\<open>interface{}\<close> values.
  The dynamic types that the decoders and the prompt widgets can put there are
  enumerated by \<open>val\<close>: \<open>VStrs\<close> is a Go \<^verbatim>\<open>[]string\<close> (what a multi-select
  widget holds), \<open>VList\<close> is a \<^verbatim>\<open>[]interface{}\<close> (what a decoder produces
  for a sequence), \<open>VMap\<close> a nested \<^verbatim>\<open>map[string]interface{}\<close>.
\<close>

datatype val =
    VNil
  | VStr string
  | VBool bool
  | VNum int
  | VStrs "string list"
  | VList "val list"
  | VMap "(string \<times> val) list"

text \<open>A Go map from field key to value; \<open>None\<close> at type \<open>answer_map option\<close> is the nil map.\<close>

type_synonym answer_map = "string \<rightharpoonup> val"

text \<open>The error numbers of the operating system that matter here.\<close>

datatype errno = ENOENT | ENOTDIR | EACCES | EISDIR

text \<open>Returned errors, and the panics (the last four constructors).\<close>

datatype error =
    ErrUnsupportedFileExtension
  | UnsupportedFieldType string
  | FormError string
  | TemplateError string
  | FileError errno
  | UnmarshalError string
  | MarshalError string
  | PanicError error
  | PanicTheme string
  | PanicNilMap
  | PanicNilPointer

text \<open>The widgets of the prompt library, as far as the program configures them:
  title, description, (placeholder,) options, the bound value and the validator.
  A validator returns \<open>None\<close> for \<^verbatim>\<open>nil\<close> and \<open>Some msg\<close> for an error.\<close>

record huh_Option =
  huh_Key :: string
  huh_Value :: string
  huh_selected :: bool

datatype widget =
    HNote string string
  | HInput string string string string "string \<Rightarrow> string option"
  | HText string string string string "string \<Rightarrow> string option"
  | HSelect string string "huh_Option list" string "string \<Rightarrow> string option"
  | HMultiSelect string string "huh_Option list" "string list" "string list \<Rightarrow> string option"
  | HConfirm string string bool

text \<open>\<^verbatim>\<open>GetValue\<close> of the prompt library: the bound value; a note has none (\<^verbatim>\<open>nil\<close>).\<close>

fun GetValue :: "widget \<Rightarrow> val" where
  "GetValue (HNote t d) = VNil"
| "GetValue (HInput t d p v vd) = VStr v"
| "GetValue (HText t d p v vd) = VStr v"
| "GetValue (HSelect t d os v vd) = VStr v"
| "GetValue (HMultiSelect t d os v vd) = VStrs v"
| "GetValue (HConfirm t d v) = VBool v"

record huh_Group =
  huh_Title :: string
  huh_Description :: string
  huh_Fields :: "widget list"

record huh_Form =
  huh_Groups :: "huh_Group list"
  huh_Theme :: string
  huh_Accessible :: bool

record SelectOption =
  opt_Key :: string
  opt_Value :: string
  opt_Selected :: bool

text \<open>\<open>ref\<close> is the field's pointer to its widget; \<open>None\<close> is the nil pointer.\<close>

record Field =
  ref :: "widget option"
  Key :: string
  Type :: string
  Title :: string
  Description :: string
  Required :: bool
  Placeholder :: string
  Default :: val
  Options :: "SelectOption list"

record Group =
  grp_Title :: string
  grp_Description :: string
  Fields :: "Field list"

record Form =
  Groups :: "Group list"

record Confirm =
  cnf_Title :: string
  cnf_Description :: string

record Survey =
  path :: string
  answers :: "answer_map option"
  Name :: string
  Version :: string
  srv_Description :: string
  Theme :: string
  Accessible :: bool
  Output :: string
  Forms :: "Form list"
  Summary :: bool
  Confirm :: Confirm

text \<open>The prompt sessions the program opens: the header note, one session per form
  (numbered in document order), and the final confirmation.\<close>

datatype session = SHeader | SForm nat | SConfirm

text \<open>
  The collaborators outside the repository, taken as parameters: the prompt library's
  blocking \<^verbatim>\<open>Form.Run\<close> (it returns an error message, or the groups with the widgets
  in their final state), the structured-data codecs, \<^verbatim>\<open>strings.TrimSpace\<close>, and the
  template library on templates outside the fragment modelled below.
\<close>

record ext =
  TrimSpace :: "string \<Rightarrow> string"
  form_Run :: "session \<Rightarrow> huh_Form \<Rightarrow> string + huh_Group list"
  other_Parse :: "string \<Rightarrow> string \<Rightarrow> string option"
  other_Execute :: "string \<Rightarrow> string \<Rightarrow> answer_map option \<Rightarrow> string + string"
  yaml_Unmarshal_Survey :: "string \<Rightarrow> string + Survey"
  json_Unmarshal_Survey :: "string \<Rightarrow> string + Survey"
  yaml_Unmarshal_map :: "string \<Rightarrow> string + answer_map option"
  json_Unmarshal_map :: "string \<Rightarrow> string + answer_map option"
  yaml_Marshal :: "answer_map \<Rightarrow> string + string"
  json_Marshal :: "answer_map \<Rightarrow> string + string"

section \<open>The template library on the fragment the schemas use\<close>

text \<open>
  \<^verbatim>\<open>ParseTemplate\<close> hands the default text to Go's \<^verbatim>\<open>html/template\<close>. The
  library is not part of the repository; its behaviour is written out here for the
  templates the example schemas use, and left to the parameters \<open>other_Parse\<close> and
  \<open>other_Execute\<close> for every other template. The fragment: literal text without
  \<^verbatim>\<open><\<close> (so the escaping context stays plain text), and actions
  \<^verbatim>\<open>{{ .a.b }}\<close> (a chain of map keys) or \<^verbatim>\<open>{{ index . "k" }}\<close>, whose value is
  absent, \<^verbatim>\<open>nil\<close>, a string or a boolean.
\<close>

datatype tmpl_node = TText string | TChain "string list" | TIndex string

definition is_letter :: "char \<Rightarrow> bool" where
  "is_letter c = (let n = (of_char c :: nat) in (65 \<le> n \<and> n \<le> 90) \<or> (97 \<le> n \<and> n \<le> 122) \<or> n = 95)"

definition is_alnum :: "char \<Rightarrow> bool" where
  "is_alnum c = (let n = (of_char c :: nat) in is_letter c \<or> (48 \<le> n \<and> n \<le> 57))"

definition is_ident :: "string \<Rightarrow> bool" where
  "is_ident s = (case s of [] \<Rightarrow> False | c # cs \<Rightarrow> is_letter c \<and> list_all is_alnum cs)"

fun split_dots :: "string \<Rightarrow> string list" where
  "split_dots [] = [[]]"
| "split_dots (c # cs) =
     (if c = CHR ''.'' then [] # split_dots cs
      else (case split_dots cs of [] \<Rightarrow> [[c]] | x # xs \<Rightarrow> (c # x) # xs))"

text \<open>\<^verbatim>\<open>.a.b\<close>: a dot before every identifier.\<close>

definition parse_chain :: "string \<Rightarrow> string list option" where
  "parse_chain a =
     (case split_dots a of
        [] \<Rightarrow> None
      | x # ids \<Rightarrow> if x = [] \<and> ids \<noteq> [] \<and> list_all is_ident ids then Some ids else None)"

definition plain_key_char :: "char \<Rightarrow> bool" where
  "plain_key_char c = (c \<noteq> CHR 0x22 \<and> c \<noteq> CHR 0x5C \<and> c \<noteq> CHR 0x0A)"

text \<open>\<^verbatim>\<open>index . "k"\<close> with single blanks and a key without quote, backslash or newline.\<close>

definition parse_index :: "string \<Rightarrow> string option" where
  "parse_index a =
     (if 10 \<le> length a \<and> take 9 a = ''index . '' @ [CHR 0x22] \<and> drop (length a - 1) a = [CHR 0x22]
      then (let k = take (length a - 10) (drop 9 a) in if list_all plain_key_char k then Some k else None)
      else None)"

definition trim_blanks :: "string \<Rightarrow> string" where
  "trim_blanks a = rev (dropWhile (\<lambda>c. c = CHR '' '') (rev (dropWhile (\<lambda>c. c = CHR '' '') a)))"

definition parse_action :: "string \<Rightarrow> tmpl_node option" where
  "parse_action content =
     (let a = trim_blanks content in
      case parse_chain a of
        Some ids \<Rightarrow> Some (TChain ids)
      | None \<Rightarrow> (case parse_index a of Some k \<Rightarrow> Some (TIndex k) | None \<Rightarrow> None))"

text \<open>Split at the first occurrence of a doubled delimiter character.\<close>

fun split_delim :: "char \<Rightarrow> string \<Rightarrow> (string \<times> string) option" where
  "split_delim c [] = None"
| "split_delim c [x] = None"
| "split_delim c (x # y # r) =
     (if x = c \<and> y = c then Some ([], r)
      else (case split_delim c (y # r) of None \<Rightarrow> None | Some (a, b) \<Rightarrow> Some (x # a, b)))"

lemma split_delim_shorter: "split_delim c s = Some (a, b) \<Longrightarrow> length b < length s"
  by (induction c s arbitrary: a b rule: split_delim.induct) (auto split: if_splits option.splits)

definition text_node :: "string \<Rightarrow> tmpl_node list" where
  "text_node t = (if t = [] then [] else [TText t])"

text \<open>\<open>None\<close>: the template is outside the fragment.\<close>

function parse_fragment :: "string \<Rightarrow> tmpl_node list option" where
  "parse_fragment s =
     (case split_delim (CHR ''{'') s of
        None \<Rightarrow> if CHR ''<'' \<in> set s then None else Some (text_node s)
      | Some (t, rest) \<Rightarrow>
          if CHR ''<'' \<in> set t then None
          else (case split_delim (CHR ''}'') rest of
                  None \<Rightarrow> None
                | Some (content, rest') \<Rightarrow>
                    (case parse_action content of
                       None \<Rightarrow> None
                     | Some nd \<Rightarrow>
                         (case parse_fragment rest' of
                            None \<Rightarrow> None
                          | Some nds \<Rightarrow> Some (text_node t @ nd # nds)))))"
  by pat_completeness auto
termination
proof (relation "measure length")
  show "wf (measure length)" by simp
next
  fix s :: string and x2 x y x2a xa ya x2b
  assume "split_delim (CHR ''{'') s = Some x2" "(x, y) = x2"
    "split_delim (CHR ''}'') y = Some x2a" "(xa, ya) = x2a"
  then have "length y < length s" "length ya < length y"
    using split_delim_shorter by metis+
  then show "(ya, s) \<in> measure length" by simp
qed

text \<open>The escaper of the plain-text context (the library's replacement table).\<close>

definition html_escape_char :: "char \<Rightarrow> string" where
  "html_escape_char c =
     (if c = CHR 0x00 then [CHR 0xEF, CHR 0xBF, CHR 0xBD]
      else if c = CHR 0x22 then ''&#34;''
      else if c = CHR ''&'' then ''&amp;''
      else if c = CHR 0x27 then ''&#39;''
      else if c = CHR ''+'' then ''&#43;''
      else if c = CHR ''<'' then ''&lt;''
      else if c = CHR ''>'' then ''&gt;''
      else [c])"

definition html_escape :: "string \<Rightarrow> string" where
  "html_escape s = concat (map html_escape_char s)"

text \<open>The value an action evaluates to: \<open>Missing\<close> is the library's invalid value
  (a key that the map does not have).\<close>

datatype lookup = Missing | Found val

definition top_lookup :: "answer_map option \<Rightarrow> string \<Rightarrow> lookup" where
  "top_lookup data k =
     (case data of
        None \<Rightarrow> Missing
      | Some m \<Rightarrow> (case m k of None \<Rightarrow> Missing | Some v \<Rightarrow> Found v))"

text \<open>One more field of a chain: through a nested map; a missing receiver stays
  missing, a \<^verbatim>\<open>nil\<close> or non-map receiver is an execution error.\<close>

fun eval_fields :: "lookup \<Rightarrow> string list \<Rightarrow> string + lookup" where
  "eval_fields r [] = Inr r"
| "eval_fields Missing (k # ks) = eval_fields Missing ks"
| "eval_fields (Found (VMap kvs)) (k # ks) =
     eval_fields (case map_of kvs k of None \<Rightarrow> Missing | Some v \<Rightarrow> Found v) ks"
| "eval_fields (Found VNil) (k # ks) = Inl (''nil pointer evaluating interface {}.'' @ k)"
| "eval_fields (Found v) (k # ks) = Inl (''can't evaluate field '' @ k @ '' in type interface {}'')"

text \<open>Printing through the escaper; \<open>None\<close>: a value whose printing is not modelled.\<close>

fun print_lookup :: "lookup \<Rightarrow> string option" where
  "print_lookup Missing = Some []"
| "print_lookup (Found VNil) = Some []"
| "print_lookup (Found (VStr s)) = Some (html_escape s)"
| "print_lookup (Found (VBool b)) = Some (if b then ''true'' else ''false'')"
| "print_lookup (Found v) = None"

fun exec_node :: "answer_map option \<Rightarrow> tmpl_node \<Rightarrow> (string + string) option" where
  "exec_node data (TText t) = Some (Inr t)"
| "exec_node data (TChain ids) =
     (case ids of
        [] \<Rightarrow> None
      | k # ks \<Rightarrow>
          (case eval_fields (top_lookup data k) ks of
             Inl e \<Rightarrow> Some (Inl e)
           | Inr r \<Rightarrow> map_option Inr (print_lookup r)))"
| "exec_node data (TIndex k) =
     map_option Inr (print_lookup (case top_lookup data k of Missing \<Rightarrow> Found VNil | Found v \<Rightarrow> Found v))"

fun exec_nodes :: "answer_map option \<Rightarrow> tmpl_node list \<Rightarrow> (string + string) option" where
  "exec_nodes data [] = Some (Inr [])"
| "exec_nodes data (n # ns) =
     (case exec_node data n of
        None \<Rightarrow> None
      | Some (Inl e) \<Rightarrow> Some (Inl e)
      | Some (Inr out) \<Rightarrow>
          (case exec_nodes data ns of
             None \<Rightarrow> None
           | Some (Inl e) \<Rightarrow> Some (Inl e)
           | Some (Inr out') \<Rightarrow> Some (Inr (out @ out'))))"

datatype template = Fragment string string "tmpl_node list" | Other string string

definition template_Parse :: "ext \<Rightarrow> string \<Rightarrow> string \<Rightarrow> string + template" where
  "template_Parse X name txt =
     (case parse_fragment txt of
        Some ns \<Rightarrow> Inr (Fragment name txt ns)
      | None \<Rightarrow> (case other_Parse X name txt of Some e \<Rightarrow> Inl e | None \<Rightarrow> Inr (Other name txt)))"

definition template_Execute :: "ext \<Rightarrow> template \<Rightarrow> answer_map option \<Rightarrow> string + string" where
  "template_Execute X tmpl data =
     (case tmpl of
        Fragment name txt ns \<Rightarrow>
          (case exec_nodes data ns of Some r \<Rightarrow> r | None \<Rightarrow> other_Execute X name txt data)
      | Other name txt \<Rightarrow> other_Execute X name txt data)"

section \<open>The field constructors\<close>

text \<open>\<^verbatim>\<open>Survey.ParseTemplate\<close>: the data the template sees is the answer map, and
  nothing else.\<close>

definition ParseTemplate :: "ext \<Rightarrow> Survey \<Rightarrow> string \<Rightarrow> string \<Rightarrow> error + string" where
  "ParseTemplate X s v k =
     (if length v < 1 then Inr v
      else (case template_Parse X k v of
              Inl e \<Rightarrow> Inl (TemplateError e)
            | Inr tmpl \<Rightarrow>
                (case template_Execute X tmpl (answers s) of
                   Inl e \<Rightarrow> Inl (TemplateError e)
                 | Inr out \<Rightarrow> Inr out)))"

text \<open>The lookup \<^verbatim>\<open>s.answers[f.Key]\<close>; reading a nil map finds nothing.\<close>

definition answer_at :: "Survey \<Rightarrow> string \<Rightarrow> val option" where
  "answer_at s k = (case answers s of None \<Rightarrow> None | Some m \<Rightarrow> m k)"

definition NewNoteField :: "ext \<Rightarrow> Survey \<Rightarrow> Field \<Rightarrow> Field \<times> widget" where
  "NewNoteField X s f =
     (let field = HNote (TrimSpace X (Title f)) (TrimSpace X (Description f))
      in (f\<lparr>ref := Some field\<rparr>, field))"

text \<open>The validator closure shared by the input and the text constructor.\<close>

definition validate_string :: "Field \<Rightarrow> string \<Rightarrow> string option" where
  "validate_string f v = (if Required f \<and> v = [] then Some ''value is required'' else None)"

text \<open>The resume step: a string stored under the field's key replaces the value.\<close>

definition resume_string :: "Survey \<Rightarrow> Field \<Rightarrow> string \<Rightarrow> string" where
  "resume_string s f v =
     (if answers s \<noteq> None
      then (case answer_at s (Key f) of Some (VStr a) \<Rightarrow> a | _ \<Rightarrow> v)
      else v)"

definition NewInputField :: "ext \<Rightarrow> Survey \<Rightarrow> Field \<Rightarrow> error + Field \<times> widget" where
  "NewInputField X s f =
     (case (case Default f of
              VStr d \<Rightarrow>
                (case ParseTemplate X s d (Key f) of
                   Inl err \<Rightarrow> Inl (PanicError err)
                 | Inr v \<Rightarrow> Inr v)
            | _ \<Rightarrow> Inr [])
      of Inl e \<Rightarrow> Inl e
       | Inr v \<Rightarrow>
           (let field = HInput (TrimSpace X (Title f)) (TrimSpace X (Description f)) (Placeholder f)
                          (resume_string s f v) (validate_string f)
            in Inr (f\<lparr>ref := Some field\<rparr>, field)))"

definition NewTextField :: "ext \<Rightarrow> Survey \<Rightarrow> Field \<Rightarrow> error + Field \<times> widget" where
  "NewTextField X s f =
     (case (case Default f of
              VStr d \<Rightarrow>
                (case ParseTemplate X s d (Key f) of
                   Inl err \<Rightarrow> Inl (PanicError err)
                 | Inr v \<Rightarrow> Inr v)
            | _ \<Rightarrow> Inr [])
      of Inl e \<Rightarrow> Inl e
       | Inr v \<Rightarrow>
           (let field = HText (TrimSpace X (Title f)) (TrimSpace X (Description f)) (Placeholder f)
                          (resume_string s f v) (validate_string f)
            in Inr (f\<lparr>ref := Some field\<rparr>, field)))"

text \<open>The inner loop of the select constructors:
  \<^verbatim>\<open>for _, v := range sel { if v == o.Value { selected = true; break } }\<close>.
  An interface value equals the option's string only when it holds that string.\<close>

fun scan_selected :: "val list \<Rightarrow> string \<Rightarrow> bool \<Rightarrow> bool" where
  "scan_selected [] ov selected = selected"
| "scan_selected (v # sel) ov selected =
     (if v = VStr ov then True else scan_selected sel ov selected)"

text \<open>The loop over the field's options. It threads the bound value, which the body
  truncates (\<^verbatim>\<open>value = value[:0]\<close>) whenever the stored answer is a sequence, and
  the list of widget options built so far. \<open>clear\<close> is the truncated value.\<close>

fun options_loop :: "Survey \<Rightarrow> Field \<Rightarrow> 'v \<Rightarrow> SelectOption list \<Rightarrow> 'v \<Rightarrow> huh_Option list
    \<Rightarrow> 'v \<times> huh_Option list" where
  "options_loop s f clear [] v opts = (v, opts)"
| "options_loop s f clear (opt # os) v opts =
     (let k = (if opt_Key opt = [] then opt_Value opt else opt_Key opt);
          selected = opt_Selected opt;
          (v', selected') =
            (if answers s \<noteq> None
             then (case answer_at s (Key f) of
                     Some (VList sel) \<Rightarrow> (clear, scan_selected sel (opt_Value opt) selected)
                   | _ \<Rightarrow> (v, selected))
             else (v, selected))
      in options_loop s f clear os v'
           (opts @ [\<lparr>huh_Key = k, huh_Value = opt_Value opt, huh_selected = selected'\<rparr>]))"

definition validate_select :: "Field \<Rightarrow> string \<Rightarrow> string option" where
  "validate_select f v = (if Required f \<and> length v \<le> 0 then Some ''a single item is required'' else None)"

definition NewSelectField :: "ext \<Rightarrow> Survey \<Rightarrow> Field \<Rightarrow> Field \<times> widget" where
  "NewSelectField X s f =
     (let v0 = (case Default f of VStr df \<Rightarrow> df | _ \<Rightarrow> []);
          (v, opts) = options_loop s f [] (Options f) v0 [];
          field = HSelect (TrimSpace X (Title f)) (TrimSpace X (Description f)) opts v (validate_select f)
      in (f\<lparr>ref := Some field\<rparr>, field))"

text \<open>\<^verbatim>\<open>for _, v := range df { if s, ok := v.(string); ok { value = append(value, s) } }\<close>\<close>

fun default_strings :: "val list \<Rightarrow> string list \<Rightarrow> string list" where
  "default_strings [] acc = acc"
| "default_strings (v # df) acc =
     default_strings df (case v of VStr x \<Rightarrow> acc @ [x] | _ \<Rightarrow> acc)"

definition validate_multi :: "Field \<Rightarrow> string list \<Rightarrow> string option" where
  "validate_multi f t = (if Required f \<and> length t \<le> 0 then Some ''at least one items is required'' else None)"

definition NewMultiSelectField :: "ext \<Rightarrow> Survey \<Rightarrow> Field \<Rightarrow> Field \<times> widget" where
  "NewMultiSelectField X s f =
     (let v0 = (case Default f of VList df \<Rightarrow> default_strings df [] | _ \<Rightarrow> []);
          (v, opts) = options_loop s f [] (Options f) v0 [];
          field = HMultiSelect (TrimSpace X (Title f)) (TrimSpace X (Description f)) opts v (validate_multi f)
      in (f\<lparr>ref := Some field\<rparr>, field))"

definition NewConfirmField :: "ext \<Rightarrow> Survey \<Rightarrow> Field \<Rightarrow> Field \<times> widget" where
  "NewConfirmField X s f =
     (let v0 = (case Default f of VBool b \<Rightarrow> b | _ \<Rightarrow> False);
          v = (if answers s \<noteq> None
               then (case answer_at s (Key f) of Some (VBool a) \<Rightarrow> a | _ \<Rightarrow> v0)
               else v0);
          field = HConfirm (Title f) (TrimSpace X (Description f)) v
      in (f\<lparr>ref := Some field\<rparr>, field))"

section \<open>The runner\<close>

fun Group_ValueFields_loop :: "Field list \<Rightarrow> Field list" where
  "Group_ValueFields_loop [] = []"
| "Group_ValueFields_loop (f # fs) =
     (if Type f = ''note'' then Group_ValueFields_loop fs else f # Group_ValueFields_loop fs)"

definition Group_ValueFields :: "Group \<Rightarrow> Field list" where
  "Group_ValueFields g = Group_ValueFields_loop (Fields g)"

fun Form_ValueFields_loop :: "Group list \<Rightarrow> Field list" where
  "Form_ValueFields_loop [] = []"
| "Form_ValueFields_loop (g # gs) = Group_ValueFields g @ Form_ValueFields_loop gs"

definition Form_ValueFields :: "Form \<Rightarrow> Field list" where
  "Form_ValueFields f = Form_ValueFields_loop (Groups f)"

definition DefaultTheme :: string where
  "DefaultTheme = ''charm''"

text \<open>The theme itself belongs to the prompt library; its name stands for it.\<close>

definition getTheme :: "string \<Rightarrow> error + string" where
  "getTheme name0 =
     (let name = (if name0 = [] then DefaultTheme else name0)
      in if name = ''base'' \<or> name = ''base16'' \<or> name = ''charm'' \<or> name = ''catppuccin''
            \<or> name = ''dracula''
         then Inr name else Inl (PanicTheme name))"

text \<open>The type switch on one field, with the unsupported type as its default branch.\<close>

definition Run_field :: "ext \<Rightarrow> Survey \<Rightarrow> Field \<Rightarrow> error + Field \<times> widget" where
  "Run_field X s field =
     (if Type field = ''note'' then Inr (NewNoteField X s field)
      else if Type field = ''input'' then NewInputField X s field
      else if Type field = ''text'' then NewTextField X s field
      else if Type field = ''select'' then Inr (NewSelectField X s field)
      else if Type field = ''multiselect'' then Inr (NewMultiSelectField X s field)
      else if Type field = ''confirm'' then Inr (NewConfirmField X s field)
      else Inl (UnsupportedFieldType (Type field)))"

text \<open>The loop over a group's fields.\<close>

fun Run_fields :: "ext \<Rightarrow> Survey \<Rightarrow> Field list \<Rightarrow> error + Field list \<times> widget list" where
  "Run_fields X s [] = Inr ([], [])"
| "Run_fields X s (field # rest) =
     (case Run_field X s field of
        Inl e \<Rightarrow> Inl e
      | Inr (field', w) \<Rightarrow>
          (case Run_fields X s rest of
             Inl e \<Rightarrow> Inl e
           | Inr (fs, ws) \<Rightarrow> Inr (field' # fs, w # ws)))"

text \<open>The loop over a form's groups; a group without fields opens no page.\<close>

fun Run_groups :: "ext \<Rightarrow> Survey \<Rightarrow> Group list \<Rightarrow> error + Group list \<times> huh_Group list" where
  "Run_groups X s [] = Inr ([], [])"
| "Run_groups X s (g # gs) =
     (case Run_fields X s (Fields g) of
        Inl e \<Rightarrow> Inl e
      | Inr (fs, flds) \<Rightarrow>
          (case Run_groups X s gs of
             Inl e \<Rightarrow> Inl e
           | Inr (gs', groups) \<Rightarrow>
               Inr (g\<lparr>Fields := fs\<rparr> # gs',
                    (if length flds > 0
                     then [\<lparr>huh_Title = grp_Title g, huh_Description = grp_Description g,
                             huh_Fields = flds\<rparr>]
                     else []) @ groups)))"

text \<open>A field's \<open>ref\<close> points to the widget the session works on: after the session
  it denotes that widget in its final state. The final widgets come back in
  document order.\<close>

fun sync_fields :: "Field list \<Rightarrow> widget list \<Rightarrow> Field list" where
  "sync_fields [] ws = []"
| "sync_fields (f # fs) [] = f # fs"
| "sync_fields (f # fs) (w # ws) = f\<lparr>ref := Some w\<rparr> # sync_fields fs ws"

fun sync_groups :: "Group list \<Rightarrow> widget list \<Rightarrow> Group list" where
  "sync_groups [] ws = []"
| "sync_groups (g # gs) ws =
     g\<lparr>Fields := sync_fields (Fields g) (take (length (Fields g)) ws)\<rparr>
       # sync_groups gs (drop (length (Fields g)) ws)"

text \<open>\<^verbatim>\<open>for _, field := range f.ValueFields() { s.answers[field.Key] = field.ref.GetValue() }\<close>:
  writing to a nil map and calling through a nil \<open>ref\<close> panic.\<close>

fun store_answers :: "answer_map option \<Rightarrow> Field list \<Rightarrow> error + answer_map option" where
  "store_answers a [] = Inr a"
| "store_answers a (field # rest) =
     (case ref field of
        None \<Rightarrow> Inl PanicNilPointer
      | Some w \<Rightarrow>
          (case a of
             None \<Rightarrow> Inl PanicNilMap
           | Some m \<Rightarrow> store_answers (Some (m(Key field \<mapsto> GetValue w))) rest))"

type_synonym sessions = "(session \<times> huh_Form) list"

text \<open>The body of the loop over the forms: build the widgets of every group, open one
  session for the form unless it has no page, and store the answers of its value
  fields. It returns the session it opened, and either the error or the answer map
  and the form with its widgets.\<close>

definition Run_form :: "ext \<Rightarrow> string \<Rightarrow> nat \<Rightarrow> Survey \<Rightarrow> Form
    \<Rightarrow> sessions \<times> (error + answer_map option \<times> Form)" where
  "Run_form X theme i s f =
     (case Run_groups X s (Groups f) of
        Inl e \<Rightarrow> ([], Inl e)
      | Inr (gs, groups) \<Rightarrow>
          if length groups > 0
          then (let form = \<lparr>huh_Groups = groups, huh_Theme = theme, huh_Accessible = Accessible s\<rparr>
                in case form_Run X (SForm i) form of
                     Inl e \<Rightarrow> ([(SForm i, form)], Inl (FormError e))
                   | Inr final \<Rightarrow>
                       (let f' = f\<lparr>Groups := sync_groups gs (concat (map huh_Fields final))\<rparr>
                        in case store_answers (answers s) (Form_ValueFields f') of
                             Inl e \<Rightarrow> ([(SForm i, form)], Inl e)
                           | Inr a \<Rightarrow> ([(SForm i, form)], Inr (a, f'))))
          else ([], Inr (answers s, f\<lparr>Groups := gs\<rparr>)))"

text \<open>The loop over the forms.\<close>

fun Run_forms :: "ext \<Rightarrow> string \<Rightarrow> nat \<Rightarrow> Survey \<Rightarrow> Form list
    \<Rightarrow> sessions \<times> (error + answer_map option \<times> Form list)" where
  "Run_forms X theme i s [] = ([], Inr (answers s, []))"
| "Run_forms X theme i s (f # rest) =
     (case Run_form X theme i s f of
        (log, Inl e) \<Rightarrow> (log, Inl e)
      | (log, Inr (a, f')) \<Rightarrow>
          (case Run_forms X theme (Suc i) (s\<lparr>answers := a\<rparr>) rest of
             (log', Inl e) \<Rightarrow> (log @ log', Inl e)
           | (log', Inr (a', fs)) \<Rightarrow> (log @ log', Inr (a', f' # fs))))"

definition header_form :: "ext \<Rightarrow> Survey \<Rightarrow> string \<Rightarrow> huh_Form" where
  "header_form X s theme =
     \<lparr>huh_Groups =
        [\<lparr>huh_Title = [], huh_Description = [],
          huh_Fields =
            [HNote (TrimSpace X (Name s @ '', version '' @ Version s))
               (TrimSpace X (''Reading questions from '' @ path s @ '', writing answers to ''
                  @ Output s @ [CHR 0x0A, CHR 0x0A] @ srv_Description s))]\<rparr>],
      huh_Theme = theme, huh_Accessible = Accessible s\<rparr>"

definition Run :: "ext \<Rightarrow> Survey \<Rightarrow> sessions \<times> (error + Survey)" where
  "Run X s =
     (case getTheme (Theme s) of
        Inl e \<Rightarrow> ([], Inl e)
      | Inr theme \<Rightarrow>
          (let form = header_form X s theme
           in case form_Run X SHeader form of
                Inl e \<Rightarrow> ([(SHeader, form)], Inl (FormError e))
              | Inr final \<Rightarrow>
                  (case Run_forms X theme 0 s (Forms s) of
                     (log, Inl e) \<Rightarrow> ((SHeader, form) # log, Inl e)
                   | (log, Inr (a, fs)) \<Rightarrow>
                       ((SHeader, form) # log, Inr (s\<lparr>answers := a, Forms := fs\<rparr>)))))"

section \<open>Serializing, loading and the program\<close>

definition HasSuffix :: "string \<Rightarrow> string \<Rightarrow> bool" where
  "HasSuffix p suf = (length suf \<le> length p \<and> drop (length p - length suf) p = suf)"

definition fileType :: "string \<Rightarrow> string" where
  "fileType p =
     (if HasSuffix p ''.yaml'' \<or> HasSuffix p ''.yml'' then ''yaml''
      else if HasSuffix p ''.json'' then ''json''
      else [])"

text \<open>The three nested loops of \<^verbatim>\<open>Survey.Answers\<close>, over every field of every group:
  \<^verbatim>\<open>o[field.Key] = field.ref.GetValue()\<close>.\<close>

fun Answers_fields :: "Field list \<Rightarrow> answer_map \<Rightarrow> error + answer_map" where
  "Answers_fields [] out = Inr out"
| "Answers_fields (field # rest) out =
     (case ref field of
        None \<Rightarrow> Inl PanicNilPointer
      | Some w \<Rightarrow> Answers_fields rest (out(Key field \<mapsto> GetValue w)))"

fun Answers_groups :: "Group list \<Rightarrow> answer_map \<Rightarrow> error + answer_map" where
  "Answers_groups [] out = Inr out"
| "Answers_groups (g # gs) out =
     (case Answers_fields (Fields g) out of
        Inl e \<Rightarrow> Inl e
      | Inr out' \<Rightarrow> Answers_groups gs out')"

fun Answers_forms :: "Form list \<Rightarrow> answer_map \<Rightarrow> error + answer_map" where
  "Answers_forms [] out = Inr out"
| "Answers_forms (f # fs) out =
     (case Answers_groups (Groups f) out of
        Inl e \<Rightarrow> Inl e
      | Inr out' \<Rightarrow> Answers_forms fs out')"

text \<open>The map that \<^verbatim>\<open>Survey.Answers\<close> hands to the encoder.\<close>

definition Answers_map :: "Survey \<Rightarrow> error + answer_map" where
  "Answers_map s = Answers_forms (Forms s) Map.empty"

definition Answers :: "ext \<Rightarrow> Survey \<Rightarrow> error + string" where
  "Answers X s =
     (case Answers_map s of
        Inl e \<Rightarrow> Inl e
      | Inr out \<Rightarrow>
          (let p = (if Output s = [] \<or> Output s = ''-'' then path s else Output s)
           in if fileType p = ''yaml''
              then (case yaml_Marshal X out of Inl e \<Rightarrow> Inl (MarshalError e) | Inr b \<Rightarrow> Inr b)
              else if fileType p = ''json''
              then (case json_Marshal X out of Inl e \<Rightarrow> Inl (MarshalError e) | Inr b \<Rightarrow> Inr b)
              else Inl ErrUnsupportedFileExtension))"

text \<open>The process's surroundings. The file system as the program uses it, path by
  path: there is nothing at the path (it can be created there), or a regular file with
  its content, or something that cannot be opened (a directory, a file without
  permission; the error is the one the open returns), or the path cannot be walked at
  all (a directory on it is missing or cannot be searched; the error is the one the
  walk returns). Every call is logged. \<open>terminal\<close> lists the prompt sessions shown to the
  operator, \<open>environ\<close> is the environment of the process.\<close>

datatype fs_entry = Regular string | Inaccessible errno | Unreachable errno

datatype fs_op = Stat string | ReadFile string | WriteFile string

datatype out_event =
    Bytes string
  | SummaryTitle string string
  | SummaryTable "(string \<times> val \<times> string) list"

record world =
  files :: "string \<rightharpoonup> fs_entry"
  fs_log :: "fs_op list"
  stdout :: "out_event list"
  terminal :: sessions
  environ :: "string \<rightharpoonup> string"

text \<open>The paths above a path: its proper prefixes that end before a separator,
  \<open>a\<close> and \<open>a/b\<close> for \<open>a/b/c\<close>.\<close>

fun ancestors_from :: "string \<Rightarrow> string \<Rightarrow> string list" where
  "ancestors_from pre [] = []"
| "ancestors_from pre (c # cs) =
     (if c = CHR ''/'' \<and> pre \<noteq> [] then [pre] else []) @ ancestors_from (pre @ [c]) cs"

definition ancestors :: "string \<Rightarrow> string list" where
  "ancestors p = ancestors_from [] p"

definition is_file :: "(string \<rightharpoonup> fs_entry) \<Rightarrow> string \<Rightarrow> bool" where
  "is_file fs p = (case fs p of Some (Regular b) \<Rightarrow> True | _ \<Rightarrow> False)"

text \<open>The error of walking to a path, if any: a path below a regular file is below
  something that is not a directory; otherwise it is what the file system says of the
  path.\<close>

definition walk_error :: "(string \<rightharpoonup> fs_entry) \<Rightarrow> string \<Rightarrow> errno option" where
  "walk_error fs p =
     (if list_ex (is_file fs) (ancestors p) then Some ENOTDIR
      else (case fs p of Some (Unreachable e) \<Rightarrow> Some e | _ \<Rightarrow> None))"

text \<open>\<^verbatim>\<open>os.Stat\<close>, of which the program uses the error only, and \<^verbatim>\<open>os.IsNotExist\<close>, which
  holds of the error \<^verbatim>\<open>ENOENT\<close> and of no other.\<close>

definition os_Stat :: "world \<Rightarrow> string \<Rightarrow> world \<times> errno option" where
  "os_Stat w p =
     (w\<lparr>fs_log := fs_log w @ [Stat p]\<rparr>,
      case walk_error (files w) p of
        Some e \<Rightarrow> Some e
      | None \<Rightarrow> (case files w p of None \<Rightarrow> Some ENOENT | Some ent \<Rightarrow> None))"

definition os_IsNotExist :: "errno option \<Rightarrow> bool" where
  "os_IsNotExist err = (err = Some ENOENT)"

definition os_ReadFile :: "world \<Rightarrow> string \<Rightarrow> world \<times> (errno + string)" where
  "os_ReadFile w p =
     (w\<lparr>fs_log := fs_log w @ [ReadFile p]\<rparr>,
      case walk_error (files w) p of
        Some e \<Rightarrow> Inl e
      | None \<Rightarrow>
          (case files w p of
             None \<Rightarrow> Inl ENOENT
           | Some (Regular b) \<Rightarrow> Inr b
           | Some (Inaccessible e) \<Rightarrow> Inl e
           | Some (Unreachable e) \<Rightarrow> Inl e))"

definition os_WriteFile :: "world \<Rightarrow> string \<Rightarrow> string \<Rightarrow> world \<times> errno option" where
  "os_WriteFile w p b =
     (case (case walk_error (files w) p of
              Some e \<Rightarrow> Some e
            | None \<Rightarrow> (case files w p of Some (Inaccessible e) \<Rightarrow> Some e | _ \<Rightarrow> None))
      of Some e \<Rightarrow> (w\<lparr>fs_log := fs_log w @ [WriteFile p]\<rparr>, Some e)
       | None \<Rightarrow> (w\<lparr>files := (files w)(p \<mapsto> Regular b), fs_log := fs_log w @ [WriteFile p]\<rparr>, None))"

definition readAnswers :: "ext \<Rightarrow> string \<Rightarrow> world \<Rightarrow> world \<times> (error + answer_map option)" where
  "readAnswers X p w =
     (case os_Stat w p of
        (w1, err) \<Rightarrow>
          if os_IsNotExist err then (w1, Inr (Some Map.empty))
          else
          (case os_ReadFile w1 p of
             (w2, Inl e) \<Rightarrow> (w2, Inl (FileError e))
           | (w2, Inr b) \<Rightarrow>
               if fileType p = ''yaml''
               then (case yaml_Unmarshal_map X b of
                       Inl e \<Rightarrow> (w2, Inl (UnmarshalError e)) | Inr m \<Rightarrow> (w2, Inr m))
               else if fileType p = ''json''
               then (case json_Unmarshal_map X b of
                       Inl e \<Rightarrow> (w2, Inl (UnmarshalError e)) | Inr m \<Rightarrow> (w2, Inr m))
               else (w2, Inl ErrUnsupportedFileExtension)))"

text \<open>The decoders fill the exported fields of the document; \<open>path\<close> and \<open>answers\<close>
  keep what \<^verbatim>\<open>NewSurvey\<close> put there.\<close>

definition NewSurvey :: "ext \<Rightarrow> string \<Rightarrow> world \<Rightarrow> world \<times> (error + Survey)" where
  "NewSurvey X p w =
     (case os_ReadFile w p of
        (w1, Inl e) \<Rightarrow> (w1, Inl (FileError e))
      | (w1, Inr b) \<Rightarrow>
          (case (if fileType p = ''yaml''
                 then (case yaml_Unmarshal_Survey X b of Inl e \<Rightarrow> Inl (UnmarshalError e) | Inr d \<Rightarrow> Inr d)
                 else if fileType p = ''json''
                 then (case json_Unmarshal_Survey X b of Inl e \<Rightarrow> Inl (UnmarshalError e) | Inr d \<Rightarrow> Inr d)
                 else Inl ErrUnsupportedFileExtension)
           of Inl e \<Rightarrow> (w1, Inl e)
            | Inr d \<Rightarrow>
                (let s = d\<lparr>path := p, answers := Some Map.empty\<rparr>
                 in if Output s \<noteq> [] \<and> Output s \<noteq> ''-''
                    then (case readAnswers X (Output s) w1 of
                            (w2, Inl e) \<Rightarrow> (w2, Inl e)
                          | (w2, Inr a) \<Rightarrow> (w2, Inr (s\<lparr>answers := a\<rparr>)))
                    else (w1, Inr s))))"

text \<open>The summary is laid out by a table library; the events on standard output
  record what it is given: the group's title and description (when there is a title),
  and the rows \<open>(title, value, key)\<close> of the group's value fields.\<close>

fun summary_rows :: "Field list \<Rightarrow> error + (string \<times> val \<times> string) list" where
  "summary_rows [] = Inr []"
| "summary_rows (field # rest) =
     (case ref field of
        None \<Rightarrow> Inl PanicNilPointer
      | Some w \<Rightarrow>
          (case summary_rows rest of
             Inl e \<Rightarrow> Inl e
           | Inr rows \<Rightarrow> Inr ((Title field, GetValue w, Key field) # rows)))"

definition writeGroupSummary :: "Group \<Rightarrow> world \<Rightarrow> world \<times> error option" where
  "writeGroupSummary g w =
     (let w1 = (if grp_Title g \<noteq> []
                then w\<lparr>stdout := stdout w @ [SummaryTitle (grp_Title g) (grp_Description g)]\<rparr>
                else w)
      in case summary_rows (Group_ValueFields g) of
           Inl e \<Rightarrow> (w1, Some e)
         | Inr rows \<Rightarrow> (w1\<lparr>stdout := stdout w1 @ [SummaryTable rows]\<rparr>, None))"

fun summary_groups :: "Group list \<Rightarrow> world \<Rightarrow> world \<times> error option" where
  "summary_groups [] w = (w, None)"
| "summary_groups (g # gs) w =
     (case writeGroupSummary g w of
        (w1, Some e) \<Rightarrow> (w1, Some e)
      | (w1, None) \<Rightarrow> summary_groups gs w1)"

fun summary_forms :: "Form list \<Rightarrow> world \<Rightarrow> world \<times> error option" where
  "summary_forms [] w = (w, None)"
| "summary_forms (f # fs) w =
     (case summary_groups (Groups f) w of
        (w1, Some e) \<Rightarrow> (w1, Some e)
      | (w1, None) \<Rightarrow> summary_forms fs w1)"

text \<open>The exit status: 1 after \<^verbatim>\<open>log.Fatal\<close>, 2 after a panic, 0 on return.\<close>

fun exit_status :: "error \<Rightarrow> nat" where
  "exit_status (PanicError e) = 2"
| "exit_status (PanicTheme n) = 2"
| "exit_status PanicNilMap = 2"
| "exit_status PanicNilPointer = 2"
| "exit_status e = 1"

definition confirm_form :: "ext \<Rightarrow> Survey \<Rightarrow> string \<Rightarrow> huh_Form" where
  "confirm_form X s theme =
     \<lparr>huh_Groups =
        [\<lparr>huh_Title = [], huh_Description = [],
          huh_Fields =
            [HConfirm (TrimSpace X (cnf_Title (Confirm s)))
               (TrimSpace X (cnf_Description (Confirm s))) True]\<rparr>],
      huh_Theme = theme, huh_Accessible = Accessible s\<rparr>"

text \<open>The value of \<^verbatim>\<open>ok\<close> after the confirmation session.\<close>

definition confirmed :: "huh_Group list \<Rightarrow> bool" where
  "confirmed final =
     (case concat (map huh_Fields final) of
        [HConfirm t d b] \<Rightarrow> b
      | _ \<Rightarrow> True)"

definition main :: "ext \<Rightarrow> string list \<Rightarrow> world \<Rightarrow> world \<times> nat" where
  "main X args w =
     (let p = (if length args > 1 then args ! 1 else ''survey.yaml'')
      in case NewSurvey X p w of
           (w1, Inl e) \<Rightarrow> (w1, exit_status e)
         | (w1, Inr s0) \<Rightarrow>
             (case Run X s0 of
                (log, Inl e) \<Rightarrow> (w1\<lparr>terminal := terminal w1 @ log\<rparr>, exit_status e)
              | (log, Inr s) \<Rightarrow>
                  (let w2 = w1\<lparr>terminal := terminal w1 @ log\<rparr>
                   in case getTheme (Theme s) of
                        Inl e \<Rightarrow> (w2, exit_status e)
                      | Inr surveyTheme \<Rightarrow>
                          (case (if Summary s then summary_forms (Forms s) w2 else (w2, None)) of
                             (w3, Some e) \<Rightarrow> (w3, exit_status e)
                           | (w3, None) \<Rightarrow>
                               (case (if length (cnf_Title (Confirm s)) > 0
                                      then (let form = confirm_form X s surveyTheme;
                                                w4 = w3\<lparr>terminal := terminal w3 @ [(SConfirm, form)]\<rparr>
                                            in case form_Run X SConfirm form of
                                                 Inl e \<Rightarrow> (w4, Inl (FormError e))
                                               | Inr final \<Rightarrow> (w4, Inr (confirmed final)))
                                      else (w3, Inr True))
                                of (w4, Inl e) \<Rightarrow> (w4, exit_status e)
                                 | (w4, Inr ok) \<Rightarrow>
                                     if \<not> ok then (w4, 0)
                                     else (case Answers X s of
                                             Inl e \<Rightarrow> (w4, exit_status e)
                                           | Inr a \<Rightarrow>
                                               if Output s = [] \<or> Output s = ''-''
                                               then (w4\<lparr>stdout := stdout w4 @ [Bytes a]\<rparr>, 0)
                                               else (case os_WriteFile w4 (Output s) a of
                                                       (w5, Some e) \<Rightarrow> (w5, exit_status (FileError e))
                                                     | (w5, None) \<Rightarrow> (w5, 0))))))))"

text \<open>The text of an action that refers to a chain of keys: \<^verbatim>\<open>{{ .a.b }}\<close> is
  \<open>chain_action [''a'', ''b'']\<close>.\<close>

definition chain_text :: "string list \<Rightarrow> string" where
  "chain_text ids = concat (map (\<lambda>i. CHR ''.'' # i) ids)"

definition chain_action :: "string list \<Rightarrow> string" where
  "chain_action ids = ''{{ '' @ chain_text ids @ '' }}''"


text \<open>All fields of a form and of a document, in document order.\<close>

definition Form_fields :: "Form \<Rightarrow> Field list" where
  "Form_fields f = concat (map Fields (Groups f))"

definition all_fields :: "Form list \<Rightarrow> Field list" where
  "all_fields fs = concat (map Form_fields fs)"



text \<open>Whether the widget's validator returns an error for a value. Notes and confirms
  are given no validator.\<close>

fun validation_fails :: "widget \<Rightarrow> val \<Rightarrow> bool" where
  "validation_fails (HInput t d p v vd) (VStr x) = (vd x \<noteq> None)"
| "validation_fails (HText t d p v vd) (VStr x) = (vd x \<noteq> None)"
| "validation_fails (HSelect t d os v vd) (VStr x) = (vd x \<noteq> None)"
| "validation_fails (HMultiSelect t d os v vd) (VStrs x) = (vd x \<noteq> None)"
| "validation_fails w x = False"

text \<open>The same widget, up to the bound value.\<close>

fun configured_like :: "widget \<Rightarrow> widget \<Rightarrow> bool" where
  "configured_like (HNote t d) (HNote t' d') = (t = t' \<and> d = d')"
| "configured_like (HInput t d p v vd) (HInput t' d' p' v' vd') =
     (t = t' \<and> d = d' \<and> p = p' \<and> vd = vd')"
| "configured_like (HText t d p v vd) (HText t' d' p' v' vd') =
     (t = t' \<and> d = d' \<and> p = p' \<and> vd = vd')"
| "configured_like (HSelect t d os v vd) (HSelect t' d' os' v' vd') =
     (t = t' \<and> d = d' \<and> map huh_Value os = map huh_Value os' \<and> vd = vd')"
| "configured_like (HMultiSelect t d os v vd) (HMultiSelect t' d' os' v' vd') =
     (t = t' \<and> d = d' \<and> map huh_Value os = map huh_Value os' \<and> vd = vd')"
| "configured_like (HConfirm t d v) (HConfirm t' d' v') = (t = t' \<and> d = d')"
| "configured_like w w' = False"

text \<open>The contract of the prompt library that the runner relies on: a session that
  returns without error hands back the widgets it was given, with values that pass
  their validators.\<close>

definition session_validated :: "huh_Form \<Rightarrow> huh_Group list \<Rightarrow> bool" where
  "session_validated form final =
     list_all2 (\<lambda>w w'. configured_like w w' \<and> \<not> validation_fails w' (GetValue w'))
       (concat (map huh_Fields (huh_Groups form))) (concat (map huh_Fields final))"

definition operator_validated :: "ext \<Rightarrow> bool" where
  "operator_validated X =
     (\<forall>t form final. form_Run X t form = Inr final \<longrightarrow> session_validated form final)"

text \<open>The value of a field after its session is not empty if the field is required:
  a non-empty string for input, text and select, a non-empty list for multiselect.\<close>

definition valid_answer :: "Field \<Rightarrow> widget \<Rightarrow> bool" where
  "valid_answer f w =
     ((Type f = ''input'' \<or> Type f = ''text'' \<or> Type f = ''select'' \<longrightarrow>
         (\<exists>v. GetValue w = VStr v \<and> \<not> (Required f \<and> v = [])))
      \<and> (Type f = ''multiselect'' \<longrightarrow>
         (\<exists>t. GetValue w = VStrs t \<and> \<not> (Required f \<and> t = []))))"

text \<open>A field without its pointer to the widget: what the schema says about it.\<close>

definition schema_of :: "Field \<Rightarrow> Field" where
  "schema_of f = f\<lparr>ref := None\<rparr>"

text \<open>A widget built for a field: whatever passes its validator is a valid answer of
  the field.\<close>

definition built_ok :: "Field \<Rightarrow> widget \<Rightarrow> bool" where
  "built_ok f w = (\<forall>w'. configured_like w w' \<and> \<not> validation_fails w' (GetValue w') \<longrightarrow> valid_answer f w')"

section \<open>Example collaborators and documents\<close>

text \<open>A stand-in for \<^verbatim>\<open>strings.TrimSpace\<close> on ASCII text.\<close>

definition ascii_space :: "char \<Rightarrow> bool" where
  "ascii_space c = (let n = (of_char c :: nat) in (9 \<le> n \<and> n \<le> 13) \<or> n = 32)"

definition ascii_TrimSpace :: "string \<Rightarrow> string" where
  "ascii_TrimSpace a = rev (dropWhile ascii_space (rev (dropWhile ascii_space a)))"

text \<open>An operator who accepts every default, and one who types \<open>Ada\<close> into every
  input titled \<open>Name\<close>.\<close>

definition accept_defaults :: "session \<Rightarrow> huh_Form \<Rightarrow> string + huh_Group list" where
  "accept_defaults t form = Inr (huh_Groups form)"

definition type_Ada :: "widget \<Rightarrow> widget" where
  "type_Ada w =
     (case w of
        HInput t d p v vd \<Rightarrow> if t = ''Name'' then HInput t d p ''Ada'' vd else w
      | _ \<Rightarrow> w)"

definition operator_Ada :: "session \<Rightarrow> huh_Form \<Rightarrow> string + huh_Group list" where
  "operator_Ada t form =
     Inr (map (\<lambda>g. g\<lparr>huh_Fields := map type_Ada (huh_Fields g)\<rparr>) (huh_Groups form))"

text \<open>Collaborators for the examples: the given operator; every schema file decodes to
  the given document and every answer file to the given map.\<close>

definition demo_ext :: "(session \<Rightarrow> huh_Form \<Rightarrow> string + huh_Group list) \<Rightarrow> Survey
    \<Rightarrow> answer_map option \<Rightarrow> ext" where
  "demo_ext operator doc persisted =
     \<lparr>TrimSpace = ascii_TrimSpace,
      form_Run = operator,
      other_Parse = (\<lambda>name txt. Some ''template outside the fragment''),
      other_Execute = (\<lambda>name txt data. Inl ''template outside the fragment''),
      yaml_Unmarshal_Survey = (\<lambda>b. Inr doc),
      json_Unmarshal_Survey = (\<lambda>b. Inr doc),
      yaml_Unmarshal_map = (\<lambda>b. Inr persisted),
      json_Unmarshal_map = (\<lambda>b. Inr persisted),
      yaml_Marshal = (\<lambda>m. Inr ''answers''),
      json_Marshal = (\<lambda>m. Inr ''answers'')\<rparr>"

definition demo_field :: "string \<Rightarrow> string \<Rightarrow> string \<Rightarrow> val \<Rightarrow> Field" where
  "demo_field ty k title d =
     \<lparr>ref = None, Key = k, Type = ty, Title = title, Description = [], Required = False,
      Placeholder = [], Default = d, Options = []\<rparr>"

definition demo_group :: "Field list \<Rightarrow> Group" where
  "demo_group fs = \<lparr>grp_Title = ''Page'', grp_Description = [], Fields = fs\<rparr>"

definition demo_survey :: "string \<Rightarrow> Form list \<Rightarrow> Survey" where
  "demo_survey out forms =
     \<lparr>path = ''survey.json'', answers = Some Map.empty, Name = ''demo'', Version = ''1'',
      srv_Description = [], Theme = [], Accessible = False, Output = out, Forms = forms,
      Summary = False, Confirm = \<lparr>cnf_Title = [], cnf_Description = []\<rparr>\<rparr>"

text \<open>A process whose environment sets \<open>USER\<close>, with a schema file and no answer file.\<close>

definition demo_world :: world where
  "demo_world =
     \<lparr>files = [''survey.json'' \<mapsto> Regular ''schema''], fs_log = [], stdout = [], terminal = [],
      environ = [''USER'' \<mapsto> ''ada'']\<rparr>"

text \<open>The values of the widgets of each session, page by page.\<close>

definition shown_values :: "sessions \<Rightarrow> val list list list" where
  "shown_values log = map (\<lambda>(t, form). map (\<lambda>g. map GetValue (huh_Fields g)) (huh_Groups form)) log"

text \<open>One input whose default refers to the environment variable \<open>USER\<close>.\<close>

definition env_survey :: Survey where
  "env_survey =
     demo_survey []
       [\<lparr>Groups = [demo_group [demo_field ''input'' ''projectName'' ''Name'' (VStr ''{{ .Env.USER }}'')]]\<rparr>]"



text \<open>The claim's words for the initial value of an input or text field: the templated
  default, overridden by a string persisted under the field's key.\<close>

definition spec_initial_value :: "string \<Rightarrow> val option \<Rightarrow> string" where
  "spec_initial_value templated persisted =
     (case persisted of Some (VStr a) \<Rightarrow> a | _ \<Rightarrow> templated)"

text \<open>The options a select or multi-select widget was given.\<close>

fun widget_options :: "widget \<Rightarrow> huh_Option list" where
  "widget_options (HSelect t d os v vd) = os"
| "widget_options (HMultiSelect t d os v vd) = os"
| "widget_options w = []"

text \<open>The option the widget gets for a schema option, pre-selected or not.\<close>

definition as_huh_Option :: "bool \<Rightarrow> SelectOption \<Rightarrow> huh_Option" where
  "as_huh_Option sel opt =
     \<lparr>huh_Key = (if opt_Key opt = [] then opt_Value opt else opt_Key opt),
      huh_Value = opt_Value opt, huh_selected = sel\<rparr>"

text \<open>A select with two options and the default \<open>gcp\<close>, an operator who chooses
  \<open>aws\<close> in every select, and the process after such a run: the answer file exists.\<close>

definition cloud_field :: Field where
  "cloud_field =
     (demo_field ''select'' ''cloudProvider'' ''Provider'' (VStr ''gcp''))
       \<lparr>Options := [\<lparr>opt_Key = ''Amazon Web Services'', opt_Value = ''aws'', opt_Selected = False\<rparr>,
                    \<lparr>opt_Key = ''Google Cloud Platform'', opt_Value = ''gcp'', opt_Selected = False\<rparr>]\<rparr>"

definition cloud_survey :: Survey where
  "cloud_survey = demo_survey ''answers.json'' [\<lparr>Groups = [demo_group [cloud_field]]\<rparr>]"

definition choose_aws :: "widget \<Rightarrow> widget" where
  "choose_aws w = (case w of HSelect t d os v vd \<Rightarrow> HSelect t d os ''aws'' vd | _ \<Rightarrow> w)"

definition operator_aws :: "session \<Rightarrow> huh_Form \<Rightarrow> string + huh_Group list" where
  "operator_aws t form =
     Inr (map (\<lambda>g. g\<lparr>huh_Fields := map choose_aws (huh_Fields g)\<rparr>) (huh_Groups form))"

definition resumed_world :: world where
  "resumed_world =
     \<lparr>files = [''survey.json'' \<mapsto> Regular ''schema'', ''answers.json'' \<mapsto> Regular ''answers''],
      fs_log = [], stdout = [], terminal = [], environ = Map.empty\<rparr>"

text \<open>A multi-select with two options and a default, resumed from a persisted
  selection of the other option.\<close>

definition arches_field :: Field where
  "arches_field =
     (demo_field ''multiselect'' ''arch'' ''Architectures'' (VList [VStr ''amd64'']))
       \<lparr>Options := [\<lparr>opt_Key = [], opt_Value = ''amd64'', opt_Selected = False\<rparr>,
                    \<lparr>opt_Key = [], opt_Value = ''arm64'', opt_Selected = False\<rparr>]\<rparr>"

definition arches_survey :: Survey where
  "arches_survey =
     (demo_survey ''answers.json'' [\<lparr>Groups = [demo_group [arches_field]]\<rparr>])
       \<lparr>answers := Some [''arch'' \<mapsto> VList [VStr ''arm64'']]\<rparr>"

text \<open>A multi-select with one option that the schema marks selected and that is also
  the default, resumed from a persisted selection of something else.\<close>

definition arch_field :: Field where
  "arch_field =
     (demo_field ''multiselect'' ''arch'' ''Architectures'' (VList [VStr ''amd64'']))
       \<lparr>Options := [\<lparr>opt_Key = [], opt_Value = ''amd64'', opt_Selected = True\<rparr>]\<rparr>"

definition arch_survey :: Survey where
  "arch_survey =
     (demo_survey ''answers.json'' [\<lparr>Groups = [demo_group [arch_field]]\<rparr>])
       \<lparr>answers := Some [''arch'' \<mapsto> VList [VStr ''arm64'']]\<rparr>"


text \<open>The value and the selection flags of the widgets of each session, page by page.\<close>

definition shown_options :: "sessions \<Rightarrow> (val \<times> bool list) list list list" where
  "shown_options log =
     map (\<lambda>(t, form). map (\<lambda>g. map (\<lambda>w. (GetValue w, map huh_selected (widget_options w)))
                                   (huh_Fields g)) (huh_Groups form)) log"


text \<open>An input with a templated default, resumed from a persisted string.\<close>

definition out_field :: Field where
  "out_field = demo_field ''input'' ''outDir'' ''Directory'' (VStr ''./{{ .projectName }}/'')"

definition out_survey :: Survey where
  "out_survey =
     (demo_survey ''answers.json'' [\<lparr>Groups = [demo_group [out_field]]\<rparr>])
       \<lparr>answers := Some [''projectName'' \<mapsto> VStr ''demo'', ''outDir'' \<mapsto> VStr ''/tmp/x'']\<rparr>"

text \<open>A note followed by an input, on one page.\<close>

definition note_survey :: Survey where
  "note_survey =
     demo_survey ''answers.json''
       [\<lparr>Groups = [demo_group [demo_field ''note'' ''intro'' ''Welcome'' VNil,
                               demo_field ''input'' ''name'' ''Name'' VNil]]\<rparr>]"





text \<open>An operator who edits every widget in a fixed way and gives up when the edited
  session does not pass validation.\<close>

definition careful_operator :: "(widget \<Rightarrow> widget) \<Rightarrow> session \<Rightarrow> huh_Form \<Rightarrow> string + huh_Group list" where
  "careful_operator edit t form =
     (let final = map (\<lambda>g. g\<lparr>huh_Fields := map edit (huh_Fields g)\<rparr>) (huh_Groups form)
      in if session_validated form final then Inr final else Inl ''user aborted'')"


text \<open>A required input and a required multi-select with a default, on one page.\<close>

definition required_survey :: Survey where
  "required_survey =
     demo_survey ''answers.json''
       [\<lparr>Groups =
           [demo_group
              [(demo_field ''input'' ''name'' ''Name'' VNil)\<lparr>Required := True\<rparr>,
               (demo_field ''multiselect'' ''arch'' ''Architectures'' (VList [VStr ''amd64'']))
                 \<lparr>Required := True,
                  Options := [\<lparr>opt_Key = [], opt_Value = ''amd64'', opt_Selected = False\<rparr>]\<rparr>]]\<rparr>]"









section \<open>Properties\<close>

subsection \<open>Evaluation rules\<close>

lemmas eval_defs =
  main_def NewSurvey_def os_ReadFile_def os_Stat_def os_IsNotExist_def os_WriteFile_def
  walk_error_def ancestors_def is_file_def readAnswers_def
  fileType_def HasSuffix_def Run_def Run_form_def Run_field_def getTheme_def DefaultTheme_def header_form_def
  confirm_form_def confirmed_def Answers_def Answers_map_def Form_ValueFields_def
  Group_ValueFields_def NewNoteField_def NewInputField_def NewTextField_def NewSelectField_def
  NewMultiSelectField_def NewConfirmField_def resume_string_def answer_at_def
  writeGroupSummary_def ParseTemplate_def template_Parse_def template_Execute_def
  parse_action_def parse_chain_def parse_index_def trim_blanks_def text_node_def top_lookup_def
  html_escape_def html_escape_char_def plain_key_char_def is_ident_def is_letter_def
  is_alnum_def validate_string_def validate_select_def validate_multi_def
  demo_ext_def demo_field_def demo_group_def demo_survey_def demo_world_def shown_values_def
  accept_defaults_def type_Ada_def operator_Ada_def ascii_TrimSpace_def ascii_space_def

subsection \<open>Parsing an action that refers to a chain of keys\<close>

lemma split_delim_first:
  "c \<notin> set a \<Longrightarrow> split_delim c (a @ c # c # r) = Some (a, r)"
proof (induction a)
  case Nil
  then show ?case by simp
next
  case (Cons x a)
  then show ?case by (cases a) auto
qed

lemma is_alnum_not_special:
  "is_alnum c \<Longrightarrow> c \<noteq> CHR ''}'' \<and> c \<noteq> CHR ''.'' \<and> c \<noteq> CHR '' '' \<and> c \<noteq> CHR ''<''"
  by (auto simp: is_alnum_def is_letter_def Let_def)

lemma is_letter_alnum: "is_letter c \<Longrightarrow> is_alnum c"
  by (simp add: is_alnum_def Let_def)

lemma is_ident_chars: "is_ident k \<Longrightarrow> k \<noteq> [] \<and> list_all is_alnum k"
  by (cases k) (auto simp: is_ident_def is_letter_alnum)

lemma split_dots_plain: "CHR ''.'' \<notin> set k \<Longrightarrow> split_dots k = [k]"
  by (induction k) auto

lemma split_dots_append:
  "CHR ''.'' \<notin> set k \<Longrightarrow> split_dots (k @ CHR ''.'' # r) = k # split_dots r"
  by (induction k) auto

lemma split_dots_chain:
  "list_all is_ident ids \<Longrightarrow> split_dots (chain_text ids) = [] # ids"
proof (induction ids)
  case Nil
  then show ?case by (simp add: chain_text_def)
next
  case (Cons i ids)
  then have nodot: "CHR ''.'' \<notin> set i"
    using is_ident_chars[of i] is_alnum_not_special by (auto simp: list_all_iff)
  show ?case
  proof (cases ids)
    case Nil
    then show ?thesis using nodot by (simp add: chain_text_def split_dots_plain)
  next
    case (Cons j js)
    have "chain_text (i # ids) = CHR ''.'' # (i @ CHR ''.'' # (j @ chain_text js))"
      by (simp add: chain_text_def Cons)
    moreover have "split_dots (chain_text ids) = [] # ids" using Cons.IH Cons.prems by simp
    ultimately show ?thesis using nodot Cons
      by (simp add: split_dots_append chain_text_def)
  qed
qed

lemma dropWhile_blank_id:
  "a \<noteq> [] \<Longrightarrow> hd a \<noteq> CHR '' '' \<Longrightarrow> dropWhile (\<lambda>c. c = CHR '' '') a = a"
  by (cases a) auto

lemma trim_blanks_padded:
  assumes "a \<noteq> []" "hd a \<noteq> CHR '' ''" "last a \<noteq> CHR '' ''"
  shows "trim_blanks (CHR '' '' # a @ '' '') = a"
proof -
  have 1: "dropWhile (\<lambda>c. c = CHR '' '') (CHR '' '' # a @ '' '') = a @ '' ''"
    using assms(1,2) by (cases a) auto
  have "hd (rev a) \<noteq> CHR '' ''" using assms(1,3) by (simp add: hd_rev)
  then have 2: "dropWhile (\<lambda>c. c = CHR '' '') (rev (a @ '' '')) = rev a"
    using assms(1) by (simp add: dropWhile_blank_id)
  show ?thesis unfolding trim_blanks_def 1 2 by simp
qed

lemma chain_text_ends:
  assumes "list_all is_ident ids" "ids \<noteq> []"
  shows "chain_text ids \<noteq> [] \<and> hd (chain_text ids) = CHR ''.'' \<and> is_alnum (last (chain_text ids))
         \<and> (\<forall>c \<in> set (chain_text ids). c = CHR ''.'' \<or> is_alnum c)"
  using assms
proof (induction ids)
  case Nil
  then show ?case by simp
next
  case (Cons i ids)
  have i: "i \<noteq> []" "list_all is_alnum i" using Cons.prems is_ident_chars[of i] by auto
  have ct: "chain_text (i # ids) = CHR ''.'' # i @ chain_text ids" by (simp add: chain_text_def)
  show ?case
  proof (cases ids)
    case Nil
    then show ?thesis using i by (auto simp: chain_text_def list_all_iff)
  next
    case (Cons j js)
    then have "chain_text ids \<noteq> [] \<and> is_alnum (last (chain_text ids))
         \<and> (\<forall>c \<in> set (chain_text ids). c = CHR ''.'' \<or> is_alnum c)"
      using Cons.IH Cons.prems by auto
    then show ?thesis using i ct by (auto simp: list_all_iff)
  qed
qed

lemma parse_fragment_chain:
  assumes "list_all is_ident ids" "ids \<noteq> []"
  shows "parse_fragment (chain_action ids) = Some [TChain ids]"
proof -
  let ?c = "chain_text ids"
  note e = chain_text_ends[OF assms]
  have nb: "CHR ''}'' \<notin> set (CHR '' '' # ?c @ '' '')"
    using e is_alnum_not_special by auto
  have open_: "split_delim (CHR ''{'') (chain_action ids) = Some ([], CHR '' '' # ?c @ '' }}'')"
    by (simp add: chain_action_def)
  have close_: "split_delim (CHR ''}'') (CHR '' '' # ?c @ '' }}'') = Some (CHR '' '' # ?c @ '' '', [])"
    using split_delim_first[OF nb, of "[]"] by simp
  have "last ?c \<noteq> CHR '' ''" "hd ?c \<noteq> CHR '' ''" using e is_alnum_not_special by auto
  then have tr: "trim_blanks (CHR '' '' # ?c @ '' '') = ?c"
    using trim_blanks_padded e by blast
  have act: "parse_action (CHR '' '' # ?c @ '' '') = Some (TChain ids)"
    unfolding parse_action_def tr using assms by (simp add: parse_chain_def split_dots_chain)
  have nil: "parse_fragment [] = Some []"
    by (subst parse_fragment.simps) (simp add: text_node_def)
  show ?thesis
    by (subst parse_fragment.simps) (simp add: open_ close_ act nil text_node_def)
qed

lemma ParseTemplate_chain:
  assumes "list_all is_ident ids" "ids \<noteq> []" "exec_node (answers s) (TChain ids) = Some r"
  shows "ParseTemplate X s (chain_action ids) k
         = (case r of Inl e \<Rightarrow> Inl (TemplateError e) | Inr out \<Rightarrow> Inr out)"
proof -
  have "chain_action ids \<noteq> []" by (simp add: chain_action_def)
  then show ?thesis
    unfolding ParseTemplate_def template_Parse_def parse_fragment_chain[OF assms(1,2)]
    using assms(3) by (simp add: template_Execute_def split: sum.splits)
qed

subsection \<open>The runner and unsupported field types\<close>





lemma Run_form_log:
  "(t, form) \<in> set (fst (Run_form X th n s f)) \<Longrightarrow> t = SForm n"
  by (auto simp: Run_form_def Let_def split: sum.splits prod.splits if_splits)

lemma Run_forms_log_range:
  "(t, form) \<in> set (fst (Run_forms X th n s fs)) \<Longrightarrow> \<exists>k. t = SForm k \<and> n \<le> k \<and> k < n + length fs"
proof (induction fs arbitrary: n s)
  case Nil
  then show ?case by simp
next
  case (Cons f fs)
  obtain l r where step: "Run_form X th n s f = (l, r)" by (cases "Run_form X th n s f")
  show ?case
  proof (cases r)
    case (Inl e)
    then have "(t, form) \<in> set (fst (Run_form X th n s f))" using Cons.prems step by simp
    then show ?thesis using Run_form_log by fastforce
  next
    case (Inr af)
    obtain a f' where af: "af = (a, f')" by (cases af)
    obtain l' r' where rest: "Run_forms X th (Suc n) (s\<lparr>answers := a\<rparr>) fs = (l', r')"
      by (cases "Run_forms X th (Suc n) (s\<lparr>answers := a\<rparr>) fs")
    have "fst (Run_forms X th n s (f # fs)) = l @ l'"
      using step Inr af rest by (auto split: sum.splits)
    then have "(t, form) \<in> set l \<or> (t, form) \<in> set l'" using Cons.prems by auto
    then show ?thesis
    proof
      assume "(t, form) \<in> set l"
      then have "(t, form) \<in> set (fst (Run_form X th n s f))" using step by simp
      then show ?thesis using Run_form_log by fastforce
    next
      assume "(t, form) \<in> set l'"
      then have "(t, form) \<in> set (fst (Run_forms X th (Suc n) (s\<lparr>answers := a\<rparr>) fs))"
        using rest by simp
      from Cons.IH[OF this] show ?thesis by auto
    qed
  qed
qed


lemma Run_field_ref:
  "Run_field X s f = Inr (f', w) \<Longrightarrow> f' = f\<lparr>ref := Some w\<rparr>"
  by (auto simp: Run_field_def NewNoteField_def NewInputField_def NewTextField_def
      NewSelectField_def NewMultiSelectField_def NewConfirmField_def Let_def
      split: if_splits val.splits sum.splits prod.splits)

lemma Run_fields_refs:
  "Run_fields X s fs = Inr (fs', ws) \<Longrightarrow>
     length ws = length fs \<and> fs' = map (\<lambda>(f, w). f\<lparr>ref := Some w\<rparr>) (zip fs ws)"
proof (induction fs arbitrary: fs' ws)
  case Nil
  then show ?case by simp
next
  case (Cons a fs)
  then show ?case
    using Run_field_ref[of X s a]
    by (auto split: sum.splits prod.splits)
qed













subsection \<open>Validation\<close>

lemma Run_field_built:
  assumes "Run_field X s f = Inr (f', w)"
  shows "built_ok f w"
proof -
  consider "Type f = ''note''" | "Type f = ''input''" | "Type f = ''text''" | "Type f = ''select''"
    | "Type f = ''multiselect''" | "Type f = ''confirm''"
    using assms by (auto simp: Run_field_def split: if_splits)
  then show ?thesis
  proof cases
    case 1
    then show ?thesis unfolding built_ok_def valid_answer_def by simp
  next
    case 2
    then obtain t d p v where w: "w = HInput t d p v (validate_string f)"
      using assms by (auto simp: Run_field_def NewInputField_def Let_def split: sum.splits val.splits)
    show ?thesis unfolding built_ok_def
    proof (intro allI impI)
      fix w' assume a: "configured_like w w' \<and> \<not> validation_fails w' (GetValue w')"
      then show "valid_answer f w'" using w 2
        by (cases w') (auto simp: valid_answer_def validate_string_def split: if_splits)
    qed
  next
    case 3
    then obtain t d p v where w: "w = HText t d p v (validate_string f)"
      using assms by (auto simp: Run_field_def NewTextField_def Let_def split: sum.splits val.splits)
    show ?thesis unfolding built_ok_def
    proof (intro allI impI)
      fix w' assume a: "configured_like w w' \<and> \<not> validation_fails w' (GetValue w')"
      then show "valid_answer f w'" using w 3
        by (cases w') (auto simp: valid_answer_def validate_string_def split: if_splits)
    qed
  next
    case 4
    then obtain t d os v where w: "w = HSelect t d os v (validate_select f)"
      using assms by (auto simp: Run_field_def NewSelectField_def Let_def split: prod.splits)
    show ?thesis unfolding built_ok_def
    proof (intro allI impI)
      fix w' assume a: "configured_like w w' \<and> \<not> validation_fails w' (GetValue w')"
      then show "valid_answer f w'" using w 4
        by (cases w') (auto simp: valid_answer_def validate_select_def split: if_splits)
    qed
  next
    case 5
    then obtain t d os v where w: "w = HMultiSelect t d os v (validate_multi f)"
      using assms by (auto simp: Run_field_def NewMultiSelectField_def Let_def split: prod.splits)
    show ?thesis unfolding built_ok_def
    proof (intro allI impI)
      fix w' assume a: "configured_like w w' \<and> \<not> validation_fails w' (GetValue w')"
      then show "valid_answer f w'" using w 5
        by (cases w') (auto simp: valid_answer_def validate_multi_def split: if_splits)
    qed
  next
    case 6
    then show ?thesis unfolding built_ok_def valid_answer_def by simp
  qed
qed

lemma Run_fields_built:
  "Run_fields X s fs = Inr (fs', ws) \<Longrightarrow> list_all2 built_ok fs ws"
proof (induction fs arbitrary: fs' ws)
  case Nil
  then show ?case by simp
next
  case (Cons a fs)
  then show ?case using Run_field_built[of X s a]
    by (auto split: sum.splits prod.splits)
qed


lemma zip_append_same:
  "length a = length c \<Longrightarrow> zip (a @ b) (c @ d) = zip a c @ zip b d"
  by simp

lemma Run_groups_widgets:
  "Run_groups X s gs = Inr (gs', groups) \<Longrightarrow>
     length (concat (map huh_Fields groups)) = length (concat (map Fields gs))
     \<and> concat (map Fields gs')
         = map (\<lambda>(f, w). f\<lparr>ref := Some w\<rparr>) (zip (concat (map Fields gs)) (concat (map huh_Fields groups)))
     \<and> list_all2 built_ok (concat (map Fields gs)) (concat (map huh_Fields groups))"
proof (induction gs arbitrary: gs' groups)
  case Nil
  then show ?case by simp
next
  case (Cons g gs)
  obtain fs flds where f: "Run_fields X s (Fields g) = Inr (fs, flds)"
    using Cons.prems by (auto split: sum.splits)
  obtain gs1 groups1 where r: "Run_groups X s gs = Inr (gs1, groups1)"
    using Cons.prems f by (auto split: sum.splits)
  have gs': "gs' = g\<lparr>Fields := fs\<rparr> # gs1"
    and groups: "concat (map huh_Fields groups) = flds @ concat (map huh_Fields groups1)"
    using Cons.prems f r by auto
  note ih = Cons.IH[OF r]
  note fr = Run_fields_refs[OF f]
  note fb = Run_fields_built[OF f]
  have len: "length flds = length (Fields g)" using fr by simp
  show ?case
    unfolding gs' groups using ih fr fb len
    by (simp add: list_all2_appendI)
qed

lemma sync_fields_zip:
  "length ws = length fs \<Longrightarrow> sync_fields fs ws = map (\<lambda>(f, w). f\<lparr>ref := Some w\<rparr>) (zip fs ws)"
  by (induction fs ws rule: sync_fields.induct) auto

lemma sync_groups_zip:
  "length ws = length (concat (map Fields gs)) \<Longrightarrow>
   concat (map Fields (sync_groups gs ws))
     = map (\<lambda>(f, w). f\<lparr>ref := Some w\<rparr>) (zip (concat (map Fields gs)) ws)"
proof (induction gs arbitrary: ws)
  case Nil
  then show ?case by simp
next
  case (Cons g gs)
  let ?n = "length (Fields g)"
  have ws: "ws = take ?n ws @ drop ?n ws" by simp
  have l1: "length (take ?n ws) = length (Fields g)" using Cons.prems by simp
  have l2: "length (drop ?n ws) = length (concat (map Fields gs))" using Cons.prems by simp
  have "zip (Fields g @ concat (map Fields gs)) ws
      = zip (Fields g) (take ?n ws) @ zip (concat (map Fields gs)) (drop ?n ws)"
    using zip_append_same[of "Fields g" "take ?n ws" "concat (map Fields gs)" "drop ?n ws"] l1
    by simp
  then show ?case using Cons.IH[OF l2] sync_fields_zip[OF l1] by simp
qed

lemma valid_answer_ref: "valid_answer (f\<lparr>ref := r\<rparr>) w = valid_answer f w"
  by (simp add: valid_answer_def)

lemma built_then_valid:
  assumes "list_all2 built_ok fs ws"
    "list_all2 (\<lambda>w w'. configured_like w w' \<and> \<not> validation_fails w' (GetValue w')) ws ws'"
  shows "list_all2 valid_answer fs ws'"
proof -
  have "length fs = length ws" "length ws = length ws'"
    using assms by (auto dest: list_all2_lengthD)
  moreover have "\<forall>k < length fs. valid_answer (fs ! k) (ws' ! k)"
  proof (intro allI impI)
    fix k assume k: "k < length fs"
    have "built_ok (fs ! k) (ws ! k)" using assms(1) k by (simp add: list_all2_conv_all_nth)
    moreover have "configured_like (ws ! k) (ws' ! k) \<and> \<not> validation_fails (ws' ! k) (GetValue (ws' ! k))"
      using assms(2) k \<open>length fs = length ws\<close> by (simp add: list_all2_conv_all_nth)
    ultimately show "valid_answer (fs ! k) (ws' ! k)" unfolding built_ok_def by blast
  qed
  ultimately show ?thesis by (simp add: list_all2_conv_all_nth)
qed

lemma Run_form_valid:
  assumes "Run_form X th n s f = (l, Inr (a, f'))" "operator_validated X"
  shows "\<forall>fld \<in> set (Form_fields f'). \<exists>w. ref fld = Some w \<and> valid_answer fld w"
proof -
  obtain gs groups where g: "Run_groups X s (Groups f) = Inr (gs, groups)"
    using assms(1) by (auto simp: Run_form_def split: sum.splits)
  note gw = Run_groups_widgets[OF g]
  let ?fs = "concat (map Fields (Groups f))"
  let ?ws = "concat (map huh_Fields groups)"
  show ?thesis
  proof (cases "length groups > 0")
    case False
    then have ge: "groups = []" by simp
    have "f' = f\<lparr>Groups := gs\<rparr>"
      using assms(1) g ge by (simp add: Run_form_def)
    moreover have "concat (map Fields gs) = []" using gw unfolding ge by simp
    ultimately show ?thesis by (simp add: Form_fields_def)
  next
    case True
    let ?form = "\<lparr>huh_Groups = groups, huh_Theme = th, huh_Accessible = Accessible s\<rparr>"
    obtain final where fin: "form_Run X (SForm n) ?form = Inr final"
      and f': "f' = f\<lparr>Groups := sync_groups gs (concat (map huh_Fields final))\<rparr>"
      using assms(1) g True by (auto simp: Run_form_def Let_def split: sum.splits)
    let ?ws' = "concat (map huh_Fields final)"
    have sv: "list_all2 (\<lambda>w w'. configured_like w w' \<and> \<not> validation_fails w' (GetValue w')) ?ws ?ws'"
      using assms(2) fin unfolding operator_validated_def session_validated_def by fastforce
    have va: "list_all2 valid_answer ?fs ?ws'" using built_then_valid gw sv by blast
    have len: "length ?ws' = length ?fs" "length ?ws = length ?fs"
      using va gw by (auto dest: list_all2_lengthD)
    have lgs: "length ?ws' = length (concat (map Fields gs))" using gw len by simp
    have ff: "Form_fields f' = map (\<lambda>(f, w). f\<lparr>ref := Some w\<rparr>) (zip (concat (map Fields gs)) ?ws')"
      unfolding f' Form_fields_def using sync_groups_zip[OF lgs] by simp
    show ?thesis
    proof
      fix fld assume "fld \<in> set (Form_fields f')"
      then obtain k where k: "k < length ?fs" "fld = (concat (map Fields gs) ! k)\<lparr>ref := Some (?ws' ! k)\<rparr>"
        unfolding ff using len lgs by (auto simp: in_set_conv_nth)
      have "concat (map Fields gs) ! k = (?fs ! k)\<lparr>ref := Some (?ws ! k)\<rparr>"
        using gw k(1) len by simp
      then have "fld = (?fs ! k)\<lparr>ref := Some (?ws' ! k)\<rparr>" using k(2) by simp
      moreover have "valid_answer (?fs ! k) (?ws' ! k)"
        using va k(1) by (simp add: list_all2_conv_all_nth)
      ultimately show "\<exists>w. ref fld = Some w \<and> valid_answer fld w"
        by (simp add: valid_answer_ref)
    qed
  qed
qed

lemma Run_forms_valid:
  assumes "Run_forms X th n s fs = (l, Inr (a, fs'))" "operator_validated X"
  shows "\<forall>fld \<in> set (all_fields fs'). \<exists>w. ref fld = Some w \<and> valid_answer fld w"
  using assms(1)
proof (induction fs arbitrary: n s l a fs')
  case Nil
  then show ?case by (simp add: all_fields_def)
next
  case (Cons f fs)
  obtain l1 a1 f1 where step: "Run_form X th n s f = (l1, Inr (a1, f1))"
    using Cons.prems by (auto split: prod.splits sum.splits)
  obtain l2 a2 fs2 where rest: "Run_forms X th (Suc n) (s\<lparr>answers := a1\<rparr>) fs = (l2, Inr (a2, fs2))"
    using Cons.prems step by (auto split: prod.splits sum.splits)
  have "fs' = f1 # fs2" using Cons.prems step rest by simp
  then show ?case
    using Run_form_valid[OF step assms(2)] Cons.IH[OF rest]
    by (auto simp: all_fields_def)
qed

lemma schema_of_ref [simp]: "schema_of (f\<lparr>ref := r\<rparr>) = schema_of f"
  by (simp add: schema_of_def)

lemma schema_of_zip:
  "length ws = length fs \<Longrightarrow> map schema_of (map (\<lambda>(f, w). f\<lparr>ref := Some w\<rparr>) (zip fs ws)) = map schema_of fs"
  by (induction fs arbitrary: ws) (auto simp: length_Suc_conv)

lemma sync_fields_schema: "map schema_of (sync_fields fs ws) = map schema_of fs"
  by (induction fs ws rule: sync_fields.induct) auto

lemma sync_groups_schema:
  "map schema_of (concat (map Fields (sync_groups gs ws))) = map schema_of (concat (map Fields gs))"
  by (induction gs arbitrary: ws) (auto simp: sync_fields_schema)

lemma Run_groups_schema:
  assumes "Run_groups X s gs = Inr (gs', groups)"
  shows "map schema_of (concat (map Fields gs')) = map schema_of (concat (map Fields gs))"
  using Run_groups_widgets[OF assms] schema_of_zip by simp

lemma Run_form_schema:
  assumes "Run_form X th n s f = (l, Inr (a, f'))"
  shows "map schema_of (Form_fields f') = map schema_of (Form_fields f)"
proof -
  obtain gs groups where g: "Run_groups X s (Groups f) = Inr (gs, groups)"
    using assms(1) by (auto simp: Run_form_def split: sum.splits)
  have "\<exists>ws. f' = f\<lparr>Groups := sync_groups gs ws\<rparr> \<or> f' = f\<lparr>Groups := gs\<rparr>"
    using assms g by (auto simp: Run_form_def Let_def split: sum.splits if_splits)
  then show ?thesis
    using Run_groups_schema[OF g] sync_groups_schema[of gs]
    by (auto simp: Form_fields_def)
qed

lemma Run_forms_schema:
  assumes "Run_forms X th n s fs = (l, Inr (a, fs'))"
  shows "map schema_of (all_fields fs') = map schema_of (all_fields fs)"
  using assms
proof (induction fs arbitrary: n s l a fs')
  case Nil
  then show ?case by (simp add: all_fields_def)
next
  case (Cons f fs)
  obtain l1 a1 f1 where step: "Run_form X th n s f = (l1, Inr (a1, f1))"
    using Cons.prems by (auto split: prod.splits sum.splits)
  obtain l2 a2 fs2 where rest: "Run_forms X th (Suc n) (s\<lparr>answers := a1\<rparr>) fs = (l2, Inr (a2, fs2))"
    using Cons.prems step by (auto split: prod.splits sum.splits)
  have "fs' = f1 # fs2" using Cons.prems step rest by simp
  then show ?case
    using Run_form_schema[OF step] Cons.IH[OF rest]
    by (simp add: all_fields_def)
qed

lemma Run_result:
  assumes "snd (Run X s) = Inr s'"
  shows "\<exists>th l a. Run_forms X th 0 s (Forms s) = (l, Inr (a, Forms s')) \<and> answers s' = a"
proof -
  obtain th where th: "getTheme (Theme s) = Inr th"
    using assms by (auto simp: Run_def split: sum.splits)
  obtain final where hdr: "form_Run X SHeader (header_form X s th) = Inr final"
    using assms th by (auto simp: Run_def Let_def split: sum.splits)
  obtain l r where lr: "Run_forms X th 0 s (Forms s) = (l, r)"
    by (cases "Run_forms X th 0 s (Forms s)")
  obtain a fs where r: "r = Inr (a, fs)" "s' = s\<lparr>answers := a, Forms := fs\<rparr>"
    using assms unfolding Run_def th by (cases r) (auto simp: Let_def hdr lr)
  then show ?thesis using lr by auto
qed

lemma Answers_fields_append:
  "Answers_fields (a @ b) out = (case Answers_fields a out of Inl e \<Rightarrow> Inl e | Inr out' \<Rightarrow> Answers_fields b out')"
  by (induction a arbitrary: out) (auto split: option.splits)

lemma Answers_groups_flat:
  "Answers_groups gs out = Answers_fields (concat (map Fields gs)) out"
  by (induction gs arbitrary: out) (auto simp: Answers_fields_append split: sum.splits)

lemma Answers_forms_flat:
  "Answers_forms fs out = Answers_fields (all_fields fs) out"
  by (induction fs arbitrary: out)
     (auto simp: all_fields_def Form_fields_def Answers_fields_append Answers_groups_flat split: sum.splits)

lemma Answers_fields_ok:
  "\<forall>f \<in> set fs. ref f \<noteq> None \<Longrightarrow> \<exists>out'. Answers_fields fs out = Inr out'"
  by (induction fs arbitrary: out) (auto split: option.splits)

lemma Answers_fields_other:
  "Answers_fields fs out = Inr out' \<Longrightarrow> k \<notin> Key ` set fs \<Longrightarrow> out' k = out k"
  by (induction fs arbitrary: out) (auto split: option.splits)

lemma Answers_fields_at:
  "Answers_fields fs out = Inr out' \<Longrightarrow> distinct (map Key fs) \<Longrightarrow> f \<in> set fs
   \<Longrightarrow> out' (Key f) = map_option GetValue (ref f)"
proof (induction fs arbitrary: out)
  case Nil
  then show ?case by simp
next
  case (Cons g fs)
  obtain w where w: "ref g = Some w" and rest: "Answers_fields fs (out(Key g \<mapsto> GetValue w)) = Inr out'"
    using Cons.prems(1) by (auto split: option.splits)
  show ?case
  proof (cases "f = g")
    case True
    have "Key g \<notin> Key ` set fs" using Cons.prems(2) by auto
    then have "out' (Key g) = (out(Key g \<mapsto> GetValue w)) (Key g)"
      using Answers_fields_other[OF rest] by blast
    then show ?thesis using True w by simp
  next
    case False
    then have "f \<in> set fs" using Cons.prems(3) by simp
    then show ?thesis using Cons.IH[OF rest] Cons.prems(2) by simp
  qed
qed

lemma schema_of_sel:
  "schema_of f = schema_of g \<Longrightarrow> Key f = Key g \<and> Type f = Type g \<and> Required f = Required g"
  unfolding schema_of_def
  by (metis Field.select_convs(2,3,6) Field.surjective Field.update_convs(1))

lemma schema_keys:
  assumes "map schema_of xs = map schema_of ys"
  shows "map Key xs = map Key ys"
proof -
  have "\<And>zs. map Key zs = map Key (map schema_of zs)" by (simp add: schema_of_def)
  then show ?thesis using assms by metis
qed

lemma constructor_validators:
  "(\<forall>f' w. NewInputField X s f = Inr (f', w) \<longrightarrow> (\<forall>v. validation_fails w (VStr v) = (Required f \<and> v = [])))
   \<and> (\<forall>f' w. NewTextField X s f = Inr (f', w) \<longrightarrow> (\<forall>v. validation_fails w (VStr v) = (Required f \<and> v = [])))
   \<and> (\<forall>v. validation_fails (snd (NewSelectField X s f)) (VStr v) = (Required f \<and> v = []))
   \<and> (\<forall>t. validation_fails (snd (NewMultiSelectField X s f)) (VStrs t) = (Required f \<and> t = []))
   \<and> (\<forall>x. \<not> validation_fails (snd (NewConfirmField X s f)) x)"
  by (auto simp: NewInputField_def NewTextField_def NewSelectField_def NewMultiSelectField_def
      NewConfirmField_def Let_def validate_string_def validate_select_def validate_multi_def
      split: sum.splits val.splits prod.splits)

lemma completed_run_required:
  assumes "operator_validated X" "snd (Run X s0) = Inr s'"
  shows "map schema_of (all_fields (Forms s')) = map schema_of (all_fields (Forms s0))
       \<and> (\<exists>out. Answers_map s' = Inr out
            \<and> (distinct (map Key (all_fields (Forms s0))) \<longrightarrow>
                 (\<forall>fld \<in> set (all_fields (Forms s0)). Required fld \<longrightarrow>
                    (Type fld = ''input'' \<or> Type fld = ''text'' \<or> Type fld = ''select'' \<longrightarrow>
                       (\<exists>v. out (Key fld) = Some (VStr v) \<and> v \<noteq> []))
                    \<and> (Type fld = ''multiselect'' \<longrightarrow>
                       (\<exists>t. out (Key fld) = Some (VStrs t) \<and> t \<noteq> [])))))"
proof -
  let ?A = "all_fields (Forms s0)" and ?B = "all_fields (Forms s')"
  obtain th l a where rf: "Run_forms X th 0 s0 (Forms s0) = (l, Inr (a, Forms s'))"
    using Run_result[OF assms(2)] by blast
  have valid: "\<forall>fld \<in> set ?B. \<exists>w. ref fld = Some w \<and> valid_answer fld w"
    using Run_forms_valid[OF rf assms(1)] .
  have schema: "map schema_of ?B = map schema_of ?A"
    using Run_forms_schema[OF rf] .
  have len: "length ?B = length ?A" using arg_cong[OF schema, of length] by simp
  have nth: "\<forall>k < length ?A. schema_of (?B ! k) = schema_of (?A ! k)"
  proof (intro allI impI)
    fix k assume k: "k < length ?A"
    have "map schema_of ?B ! k = map schema_of ?A ! k" using schema by simp
    then show "schema_of (?B ! k) = schema_of (?A ! k)" using k len by simp
  qed
  have keys: "map Key ?B = map Key ?A" using schema_keys[OF schema] .
  have refs: "\<forall>f \<in> set ?B. ref f \<noteq> None" using valid by auto
  from Answers_fields_ok[OF refs, of Map.empty]
  obtain out where out: "Answers_fields ?B Map.empty = Inr out" ..
  have look: "distinct (map Key ?B) \<Longrightarrow> f \<in> set ?B \<Longrightarrow> out (Key f) = map_option GetValue (ref f)" for f
    by (rule Answers_fields_at[OF out])
  have am: "Answers_map s' = Inr out"
    using out by (simp add: Answers_map_def Answers_forms_flat)
  have req: "distinct (map Key ?A) \<longrightarrow>
                 (\<forall>fld \<in> set ?A. Required fld \<longrightarrow>
                    (Type fld = ''input'' \<or> Type fld = ''text'' \<or> Type fld = ''select'' \<longrightarrow>
                       (\<exists>v. out (Key fld) = Some (VStr v) \<and> v \<noteq> []))
                    \<and> (Type fld = ''multiselect'' \<longrightarrow>
                       (\<exists>t. out (Key fld) = Some (VStrs t) \<and> t \<noteq> [])))"
  proof (intro impI ballI)
    fix fld assume d: "distinct (map Key ?A)" and fld: "fld \<in> set ?A" and r: "Required fld"
    obtain k where k: "k < length ?A" "fld = ?A ! k" using fld by (auto simp: in_set_conv_nth)
    let ?g = "?B ! k"
    have g: "?g \<in> set ?B" using k(1) len by simp
    have "schema_of ?g = schema_of fld" using nth k by simp
    from schema_of_sel[OF this]
    have sel: "Key ?g = Key fld" "Type ?g = Type fld" "Required ?g = Required fld"
      by simp_all
    obtain w where w: "ref ?g = Some w" "valid_answer ?g w" using valid g by blast
    have "out (Key fld) = Some (GetValue w)"
      using look[OF _ g] d keys w(1) sel(1) by simp
    then show "(Type fld = ''input'' \<or> Type fld = ''text'' \<or> Type fld = ''select'' \<longrightarrow>
                       (\<exists>v. out (Key fld) = Some (VStr v) \<and> v \<noteq> []))
                    \<and> (Type fld = ''multiselect'' \<longrightarrow>
                       (\<exists>t. out (Key fld) = Some (VStrs t) \<and> t \<noteq> []))"
      using w(2) sel r unfolding valid_answer_def by auto
  qed
  show ?thesis
    by (intro conjI exI[of _ out]) (rule schema, rule am, rule req)
qed

lemma careful_operator_validated:
  "operator_validated (demo_ext (careful_operator edit) doc persisted)"
  by (auto simp: operator_validated_def demo_ext_def careful_operator_def Let_def split: if_splits)

subsection \<open>The answer map between the forms of a run\<close>






















subsection \<open>Building the widgets of a form\<close>





lemma options_loop_not_list:
  assumes "\<forall>sel. answer_at s (Key f) \<noteq> Some (VList sel)"
  shows "options_loop s f clear os v opts =
           (v, opts @ map (\<lambda>opt. as_huh_Option (opt_Selected opt) opt) os)"
proof (induction os arbitrary: v opts)
  case Nil
  show ?case by simp
next
  case (Cons opt os)
  have inner: "(case answer_at s (Key f) of
               Some (VList sel) \<Rightarrow> (clear, scan_selected sel (opt_Value opt) (opt_Selected opt))
             | _ \<Rightarrow> (v, opt_Selected opt)) = (v, opt_Selected opt)"
    using assms by (cases "answer_at s (Key f)") (auto split: val.splits)
  show ?case
    by (simp add: Let_def inner Cons.IH as_huh_Option_def)
qed


subsection \<open>Serializing and loading use the same codec\<close>


text \<open>When the answers go to a file, \<^verbatim>\<open>Survey.Answers\<close> encodes them with the codec
  that the extension of the output path selects, and \<^verbatim>\<open>readAnswers\<close> decodes that file
  with the codec of the same format: what comes back is whatever that codec makes of
  its own output.\<close>

lemma writer_and_loader_same_codec:
  assumes "Output s \<noteq> []" "Output s \<noteq> ''-''" "Answers_map s = Inr out" "Answers X s = Inr b"
    "files w (Output s) = Some (Regular b)" "walk_error (files w) (Output s) = None"
  shows "(fileType (Output s) = ''yaml'' \<and> yaml_Marshal X out = Inr b
          \<and> snd (readAnswers X (Output s) w)
              = (case yaml_Unmarshal_map X b of Inl e \<Rightarrow> Inl (UnmarshalError e) | Inr m \<Rightarrow> Inr m))
       \<or> (fileType (Output s) = ''json'' \<and> json_Marshal X out = Inr b
          \<and> snd (readAnswers X (Output s) w)
              = (case json_Unmarshal_map X b of Inl e \<Rightarrow> Inl (UnmarshalError e) | Inr m \<Rightarrow> Inr m))"
proof -
  have ft: "fileType (Output s) = ''yaml'' \<or> fileType (Output s) = ''json''"
    using assms(1,2,3,4) by (auto simp: Answers_def Let_def split: if_splits)
  have rd: "os_ReadFile (w\<lparr>fs_log := fs_log w @ [Stat (Output s)]\<rparr>) (Output s)
      = (w\<lparr>fs_log := fs_log w @ [Stat (Output s), ReadFile (Output s)]\<rparr>, Inr b)"
    using assms(5,6) by (simp add: os_ReadFile_def walk_error_def is_file_def)
  have st: "os_Stat w (Output s) = (w\<lparr>fs_log := fs_log w @ [Stat (Output s)]\<rparr>, None)"
    using assms(5,6) by (simp add: os_Stat_def)
  have ne: "\<not> os_IsNotExist None" by (simp add: os_IsNotExist_def)
  from ft show ?thesis
  proof
    assume y: "fileType (Output s) = ''yaml''"
    have "yaml_Marshal X out = Inr b"
      using assms(1,2,3,4) y by (cases "yaml_Marshal X out") (simp_all add: Answers_def Let_def)
    moreover have "snd (readAnswers X (Output s) w)
        = (case yaml_Unmarshal_map X b of Inl e \<Rightarrow> Inl (UnmarshalError e) | Inr m \<Rightarrow> Inr m)"
      unfolding readAnswers_def st using rd y ne
      by (cases "yaml_Unmarshal_map X b") simp_all
    ultimately show ?thesis using y by simp
  next
    assume j: "fileType (Output s) = ''json''"
    have "json_Marshal X out = Inr b"
      using assms(1,2,3,4) j by (cases "json_Marshal X out") (simp_all add: Answers_def Let_def)
    moreover have "snd (readAnswers X (Output s) w)
        = (case json_Unmarshal_map X b of Inl e \<Rightarrow> Inl (UnmarshalError e) | Inr m \<Rightarrow> Inr m)"
      unfolding readAnswers_def st using rd j ne
      by (cases "json_Unmarshal_map X b") simp_all
    ultimately show ?thesis using j by simp
  qed
qed


text \<open>
  Claim C10. Template expansion of a default HTML-escapes what it substitutes: with
  the answer \<^verbatim>\<open><a&"b\<close> stored under \<open>name\<close>, a default that refers to \<open>name\<close>
  resolves to \<^verbatim>\<open>&lt;a&amp;&#34;b\<close>, the entity encoding, not to the answer's text.
  This holds for either way of referring to the key, whatever the other collaborators
  and the rest of the survey are.
\<close>

theorem ParseTemplate_escapes_html:
  \<open>ParseTemplate X (s\<lparr>answers := Some [''name'' \<mapsto> VStr ''<a&"b'']\<rparr>) ''{{ index . "name" }}'' k
     = Inr ''&lt;a&amp;&#34;b''
   \<and> ParseTemplate X (s\<lparr>answers := Some [''name'' \<mapsto> VStr ''<a&"b'']\<rparr>) ''./{{ .name }}/'' k
     = Inr ''./&lt;a&amp;&#34;b/''\<close>
  by (simp add: ParseTemplate_def template_Parse_def template_Execute_def parse_action_def
      parse_chain_def parse_index_def trim_blanks_def text_node_def top_lookup_def
      html_escape_def html_escape_char_def plain_key_char_def is_ident_def is_letter_def
      is_alnum_def)

subsection \<open>The template resolver and the environment\<close>

text \<open>
  Claim C3, as stated, fails: in a process whose environment sets \<open>USER\<close> to \<open>ada\<close>,
  the program run on a schema whose only input has the default \<^verbatim>\<open>{{ .Env.USER }}\<close>
  shows that input with the empty string as its initial value, not with \<open>ada\<close>.
\<close>

theorem env_reference_counterexample:
  "environ demo_world ''USER'' = Some ''ada'' \<and>
   shown_values (terminal (fst (main (demo_ext accept_defaults env_survey None)
                                  [''dhuh'', ''survey.json''] demo_world)))
     = [[[VNil]], [[VStr []]]]"
  by (simp add: eval_defs env_survey_def Let_def)

text \<open>
  Claim C3, amended. The template resolver is given the answer map and nothing else:
  a default that refers to an environment variable, \<^verbatim>\<open>{{ .Env.NAME }}\<close>, is looked up
  in the answer map, and with no entry \<open>Env\<close> there it expands to the empty string,
  whatever the environment of the process holds.
\<close>

theorem ParseTemplate_env_reference:
  assumes "is_ident n" and "answer_at s ''Env'' = None"
  shows "ParseTemplate X s (''{{ .Env.'' @ n @ '' }}'') k = Inr []"
proof -
  have ids: "list_all is_ident [''Env'', n]"
    using assms(1) by (simp add: is_ident_def is_letter_def is_alnum_def)
  have "top_lookup (answers s) ''Env'' = Missing"
    using assms(2) by (auto simp: top_lookup_def answer_at_def split: option.splits)
  then have "exec_node (answers s) (TChain [''Env'', n]) = Some (Inr [])"
    by simp
  from ParseTemplate_chain[OF ids _ this, of X k] show ?thesis
    by (simp add: chain_action_def chain_text_def)
qed

theorem ParseTemplate_env_reference_witness:
  "is_ident ''USER'' \<and> answer_at env_survey ''Env'' = None
   \<and> ParseTemplate (demo_ext accept_defaults env_survey None) env_survey ''{{ .Env.USER }}''
        ''projectName'' = Inr []"
  using ParseTemplate_env_reference[of "''USER''" env_survey
          "demo_ext accept_defaults env_survey None" "''projectName''"]
  by (simp add: is_ident_def is_letter_def is_alnum_def answer_at_def env_survey_def demo_survey_def)

subsection \<open>Loading the persisted answers\<close>









subsection \<open>Initial values of input and text fields\<close>

lemma NewInputField_value:
  assumes "ParseTemplate X s d (Key f) = Inr t" "Default f = VStr d"
  shows "\<exists>f' w. NewInputField X s f = Inr (f', w) \<and> ref f' = Some w
          \<and> GetValue w = VStr (spec_initial_value t (answer_at s (Key f)))"
  using assms
  by (auto simp: NewInputField_def Let_def resume_string_def spec_initial_value_def answer_at_def
      split: option.splits val.splits)

lemma NewTextField_value:
  assumes "ParseTemplate X s d (Key f) = Inr t" "Default f = VStr d"
  shows "\<exists>f' w. NewTextField X s f = Inr (f', w) \<and> ref f' = Some w
          \<and> GetValue w = VStr (spec_initial_value t (answer_at s (Key f)))"
  using assms
  by (auto simp: NewTextField_def Let_def resume_string_def spec_initial_value_def answer_at_def
      split: option.splits val.splits)

lemma input_text_no_default:
  assumes "Type f = ''input'' \<or> Type f = ''text''" "\<forall>d. Default f \<noteq> VStr d"
  shows "\<exists>f' w. Run_fields X s [f] = Inr ([f'], [w]) \<and> ref f' = Some w
          \<and> GetValue w = VStr (spec_initial_value [] (answer_at s (Key f)))"
  using assms
  by (cases "Default f")
     (auto simp: Run_field_def NewInputField_def NewTextField_def Let_def resume_string_def
        spec_initial_value_def answer_at_def split: option.splits val.splits)

text \<open>
  Claim C5. For every input or text field the initial value is computed in a fixed
  order. A string default is template-expanded first: when the expansion fails the
  constructor panics, whatever is persisted. Then a string stored in the survey's
  answer map under the field's key (the map holds the persisted answers from the
  start of the run) overrides the templated default; without such a string the
  templated default stands. A default that is not a string counts as the empty one.
\<close>

theorem input_text_initial_value:
  "((Type f = ''input'' \<or> Type f = ''text'') \<and> Default f = VStr d \<longrightarrow>
     (case ParseTemplate X s d (Key f) of
        Inl e \<Rightarrow> Run_fields X s [f] = Inl (PanicError e)
      | Inr t \<Rightarrow> (\<exists>f' w. Run_fields X s [f] = Inr ([f'], [w]) \<and> ref f' = Some w
                  \<and> GetValue w = VStr (spec_initial_value t (answer_at s (Key f))))))
   \<and> ((Type f2 = ''input'' \<or> Type f2 = ''text'') \<and> (\<forall>d. Default f2 \<noteq> VStr d) \<longrightarrow>
        (\<exists>f' w. Run_fields X s [f2] = Inr ([f'], [w]) \<and> ref f' = Some w
           \<and> GetValue w = VStr (spec_initial_value [] (answer_at s (Key f2)))))"
proof (cases "ParseTemplate X s d (Key f)")
  case (Inl e)
  then show ?thesis
    using input_text_no_default[of f2 X s]
    by (auto simp: Run_field_def NewInputField_def NewTextField_def)
next
  case (Inr t)
  then show ?thesis
    using NewInputField_value[of X s d f t] NewTextField_value[of X s d f t]
      input_text_no_default[of f2 X s]
    by (auto simp: Run_field_def)
qed

theorem input_text_initial_value_witness:
  "(Type out_field = ''input'' \<or> Type out_field = ''text'')
   \<and> Default out_field = VStr ''./{{ .projectName }}/''
   \<and> ParseTemplate (demo_ext accept_defaults out_survey None) out_survey
        ''./{{ .projectName }}/'' (Key out_field) = Inr ''./demo/''
   \<and> spec_initial_value ''./demo/'' (answer_at out_survey (Key out_field)) = ''/tmp/x''
   \<and> map GetValue (snd (projr (Run_fields (demo_ext accept_defaults out_survey None) out_survey
                                  [out_field]))) = [VStr ''/tmp/x'']
   \<and> Type (out_field\<lparr>Default := VNil, Key := ''fresh''\<rparr>) = ''input''
   \<and> map GetValue (snd (projr (Run_fields (demo_ext accept_defaults out_survey None) out_survey
                                  [out_field\<lparr>Default := VNil, Key := ''fresh''\<rparr>]))) = [VStr []]"
  using input_text_initial_value[of out_field "''./{{ .projectName }}/''"
      "demo_ext accept_defaults out_survey None" out_survey
      "out_field\<lparr>Default := VNil, Key := ''fresh''\<rparr>"]
  by (simp add: eval_defs out_field_def out_survey_def spec_initial_value_def Let_def)

subsection \<open>Resuming select and multi-select fields\<close>

lemma scan_selected_iff: "scan_selected sel ov b = (b \<or> VStr ov \<in> set sel)"
  by (induction sel) auto

text \<open>Resumed from a sequence, an option is pre-selected when the schema marks it or
  its value is an element of the sequence, and the bound value is cleared.\<close>

lemma options_loop_list:
  assumes "answer_at s (Key f) = Some (VList sel)"
  shows "options_loop s f clear os v opts =
           (if os = [] then v else clear,
            opts @ map (\<lambda>opt. as_huh_Option (opt_Selected opt \<or> VStr (opt_Value opt) \<in> set sel) opt) os)"
  using assms
  by (induction os arbitrary: v opts)
     (auto simp: scan_selected_iff as_huh_Option_def answer_at_def split: option.splits)

text \<open>
  Claim C6, as stated, fails. The multi-select of the example has one option,
  \<open>amd64\<close>, marked selected in the schema and also its default; the persisted
  selection is \<open>arm64\<close>. The option comes out pre-selected although its value matches
  no persisted element, and the default is cleared although no option matches.
\<close>

theorem select_resume_counterexample:
  "answer_at arch_survey (Key arch_field) = Some (VList [VStr ''arm64''])
   \<and> map opt_Value (Options arch_field) = [''amd64'']
   \<and> Default arch_field = VList [VStr ''amd64'']
   \<and> map huh_selected (widget_options
        (snd (NewMultiSelectField (demo_ext accept_defaults arch_survey None) arch_survey arch_field)))
       = [True]
   \<and> GetValue (snd (NewMultiSelectField (demo_ext accept_defaults arch_survey None) arch_survey
                      arch_field)) = VStrs []"
  by (simp add: eval_defs arch_survey_def arch_field_def Let_def)

text \<open>
  Claim C6, amended. For every multiselect field whose key holds a persisted sequence,
  an option is pre-selected exactly when the schema marks it selected or its \<open>value\<close>
  equals an element of the sequence (matching is by option value; the display key
  falls back to the value), and the widget's default value is cleared when the field
  has options. For every select or multiselect field with no persisted entry under its
  key, the schema's selection flags and the static default value stand unchanged.
\<close>

theorem multiselect_resume_options:
  "(answer_at s (Key f) = Some (VList sel) \<longrightarrow>
      widget_options (snd (NewMultiSelectField X s f))
        = map (\<lambda>opt. as_huh_Option (opt_Selected opt \<or> VStr (opt_Value opt) \<in> set sel) opt) (Options f)
      \<and> (Options f \<noteq> [] \<longrightarrow> GetValue (snd (NewMultiSelectField X s f)) = VStrs []))
   \<and> (answer_at s2 (Key f2) = None \<longrightarrow>
        widget_options (snd (NewSelectField X s2 f2))
          = map (\<lambda>opt. as_huh_Option (opt_Selected opt) opt) (Options f2)
        \<and> widget_options (snd (NewMultiSelectField X s2 f2))
          = map (\<lambda>opt. as_huh_Option (opt_Selected opt) opt) (Options f2)
        \<and> GetValue (snd (NewSelectField X s2 f2)) = VStr (case Default f2 of VStr df \<Rightarrow> df | _ \<Rightarrow> [])
        \<and> GetValue (snd (NewMultiSelectField X s2 f2))
          = VStrs (case Default f2 of VList df \<Rightarrow> default_strings df [] | _ \<Rightarrow> []))"
proof (intro conjI impI)
  assume l: "answer_at s (Key f) = Some (VList sel)"
  show "widget_options (snd (NewMultiSelectField X s f))
        = map (\<lambda>opt. as_huh_Option (opt_Selected opt \<or> VStr (opt_Value opt) \<in> set sel) opt) (Options f)"
    by (simp add: NewMultiSelectField_def Let_def options_loop_list[OF l])
  assume "Options f \<noteq> []"
  then show "GetValue (snd (NewMultiSelectField X s f)) = VStrs []"
    by (simp add: NewMultiSelectField_def Let_def options_loop_list[OF l])
next
  assume "answer_at s2 (Key f2) = None"
  then have n: "\<forall>sel. answer_at s2 (Key f2) \<noteq> Some (VList sel)" by simp
  show "widget_options (snd (NewSelectField X s2 f2))
          = map (\<lambda>opt. as_huh_Option (opt_Selected opt) opt) (Options f2)"
    by (simp add: NewSelectField_def Let_def options_loop_not_list[OF n])
  show "widget_options (snd (NewMultiSelectField X s2 f2))
          = map (\<lambda>opt. as_huh_Option (opt_Selected opt) opt) (Options f2)"
    by (simp add: NewMultiSelectField_def Let_def options_loop_not_list[OF n])
  show "GetValue (snd (NewSelectField X s2 f2)) = VStr (case Default f2 of VStr df \<Rightarrow> df | _ \<Rightarrow> [])"
    by (simp add: NewSelectField_def Let_def options_loop_not_list[OF n])
  show "GetValue (snd (NewMultiSelectField X s2 f2))
          = VStrs (case Default f2 of VList df \<Rightarrow> default_strings df [] | _ \<Rightarrow> [])"
    by (simp add: NewMultiSelectField_def Let_def options_loop_not_list[OF n])
qed

theorem multiselect_resume_options_witness:
  "answer_at arch_survey (Key arch_field) = Some (VList [VStr ''arm64''])
   \<and> Options arch_field \<noteq> []
   \<and> widget_options (snd (NewMultiSelectField (demo_ext accept_defaults arch_survey None)
                            arch_survey arch_field))
       = [as_huh_Option True \<lparr>opt_Key = [], opt_Value = ''amd64'', opt_Selected = True\<rparr>]
   \<and> answer_at arches_survey (Key arches_field) = Some (VList [VStr ''arm64''])
   \<and> map huh_selected (widget_options (snd (NewMultiSelectField
          (demo_ext accept_defaults arch_survey None) arches_survey arches_field)))
       = [False, True]
   \<and> answer_at env_survey (Key arch_field) = None
   \<and> GetValue (snd (NewMultiSelectField (demo_ext accept_defaults arch_survey None) env_survey
                      arch_field)) = VStrs [''amd64'']
   \<and> answer_at env_survey (Key cloud_field) = None
   \<and> GetValue (snd (NewSelectField (demo_ext accept_defaults arch_survey None) env_survey
                      cloud_field)) = VStr ''gcp''"
  using multiselect_resume_options[of arch_survey arch_field "[VStr ''arm64'']"
      "demo_ext accept_defaults arch_survey None" env_survey arch_field]
    multiselect_resume_options[of arches_survey arches_field "[VStr ''arm64'']"
      "demo_ext accept_defaults arch_survey None" env_survey cloud_field]
  by (simp add: eval_defs arch_survey_def arch_field_def arches_survey_def arches_field_def
      cloud_field_def env_survey_def Let_def as_huh_Option_def)

text \<open>A select field resumed from what the program writes for it. The answer of a
  select field is a string, and the program serializes it as a string: after a run in
  which the operator chooses \<open>aws\<close>, the map handed to the encoder holds the string
  \<open>aws\<close> under \<open>cloudProvider\<close>. The next run finds that string in the answer file, yet
  the select is shown as in a first run: no option is pre-selected, and the value is
  the schema's default \<open>gcp\<close>. The constructor looks for a sequence under the key, which
  a select never writes; whatever else is stored there leaves the widget as it is
  without any stored answer.\<close>

lemma select_string_not_resumed:
  assumes "answer_at s (Key f) = Some (VStr a)"
  shows "snd (NewSelectField X s f)
           = HSelect (TrimSpace X (Title f)) (TrimSpace X (Description f))
               (map (\<lambda>opt. as_huh_Option (opt_Selected opt) opt) (Options f))
               (case Default f of VStr df \<Rightarrow> df | _ \<Rightarrow> []) (validate_select f)"
proof -
  have "\<forall>sel. answer_at s (Key f) \<noteq> Some (VList sel)" using assms by simp
  then show ?thesis
    by (simp add: NewSelectField_def Let_def options_loop_not_list)
qed

lemma select_resume_ignored:
  "map_sum id (\<lambda>s'. map_sum id (\<lambda>out. out ''cloudProvider'') (Answers_map s'))
      (snd (Run (demo_ext operator_aws cloud_survey None) cloud_survey))
     = Inr (Inr (Some (VStr ''aws'')))
   \<and> snd (NewSurvey (demo_ext accept_defaults cloud_survey (Some [''cloudProvider'' \<mapsto> VStr ''aws'']))
            ''survey.json'' resumed_world)
     = Inr (cloud_survey\<lparr>answers := Some [''cloudProvider'' \<mapsto> VStr ''aws'']\<rparr>)
   \<and> map opt_Value (Options cloud_field) = [''aws'', ''gcp'']
   \<and> shown_options (terminal (fst (main
        (demo_ext accept_defaults cloud_survey (Some [''cloudProvider'' \<mapsto> VStr ''aws'']))
        [''dhuh'', ''survey.json''] resumed_world)))
     = [[[(VNil, [])]], [[(VStr ''gcp'', [False, False])]]]"
  by (simp add: eval_defs cloud_survey_def cloud_field_def operator_aws_def choose_aws_def
      resumed_world_def shown_options_def answer_at_def Let_def)


subsection \<open>The keys of the serialized answers\<close>

text \<open>
  Claim C1 says that the serialized answer map of a completed run has exactly the keys
  of the non-note fields. For the schema with a note \<open>intro\<close> and an input \<open>name\<close>,
  the run completes (exit status 0, answer file written), the runner's own answer map
  holds \<open>name\<close> only, yet the map that \<^verbatim>\<open>Survey.Answers\<close> hands to the encoder also has
  the key \<open>intro\<close>, with the value \<^verbatim>\<open>nil\<close>.
\<close>

theorem note_key_in_serialized_answers:
  "snd (main (demo_ext operator_Ada note_survey None) [''dhuh'', ''survey.json''] demo_world) = 0
   \<and> files (fst (main (demo_ext operator_Ada note_survey None) [''dhuh'', ''survey.json'']
                    demo_world)) ''answers.json'' = Some (Regular ''answers'')
   \<and> map_sum id
        (\<lambda>s'. (map (the (answers s')) [''intro'', ''name''],
               map_sum id (\<lambda>out. map out [''intro'', ''name'']) (Answers_map s')))
        (snd (Run (demo_ext operator_Ada note_survey None) note_survey))
      = Inr ([None, Some (VStr ''Ada'')], Inr [Some VNil, Some (VStr ''Ada'')])"
  by (simp add: eval_defs note_survey_def Let_def)

subsection \<open>Fields of an unsupported type\<close>






text \<open>
  Claim C7. The validation predicates, per kind: the validator of an input or text
  field rejects a value exactly when the field is required and the value is the empty
  string; that of a select field exactly when the field is required and no value is
  chosen (the empty string); that of a multiselect exactly when the field is required
  and the chosen list is empty; a confirm field has no validator and never fails.
  Hence, with a prompt library that only completes a session whose values pass the
  validators, a completed run leaves the document's fields as they were, and the
  serialized answers hold a non-empty value for every required field of these kinds
  (keys being unique).
\<close>

theorem validation_predicates:
  "(\<forall>f' w. NewInputField X s f = Inr (f', w) \<longrightarrow>
       (\<forall>v. validation_fails w (VStr v) = (Required f \<and> v = [])))
   \<and> (\<forall>f' w. NewTextField X s f = Inr (f', w) \<longrightarrow>
       (\<forall>v. validation_fails w (VStr v) = (Required f \<and> v = [])))
   \<and> (\<forall>v. validation_fails (snd (NewSelectField X s f)) (VStr v) = (Required f \<and> v = []))
   \<and> (\<forall>t. validation_fails (snd (NewMultiSelectField X s f)) (VStrs t) = (Required f \<and> t = []))
   \<and> (\<forall>x. \<not> validation_fails (snd (NewConfirmField X s f)) x)
   \<and> (operator_validated X \<and> snd (Run X s0) = Inr s' \<longrightarrow>
        map schema_of (all_fields (Forms s')) = map schema_of (all_fields (Forms s0))
        \<and> (\<exists>out. Answers_map s' = Inr out
             \<and> (distinct (map Key (all_fields (Forms s0))) \<longrightarrow>
                  (\<forall>fld \<in> set (all_fields (Forms s0)). Required fld \<longrightarrow>
                     (Type fld = ''input'' \<or> Type fld = ''text'' \<or> Type fld = ''select'' \<longrightarrow>
                        (\<exists>v. out (Key fld) = Some (VStr v) \<and> v \<noteq> []))
                     \<and> (Type fld = ''multiselect'' \<longrightarrow>
                        (\<exists>t. out (Key fld) = Some (VStrs t) \<and> t \<noteq> []))))))"
proof -
  note c = constructor_validators[of X s f]
  have r: "operator_validated X \<and> snd (Run X s0) = Inr s' \<longrightarrow>
        map schema_of (all_fields (Forms s')) = map schema_of (all_fields (Forms s0))
        \<and> (\<exists>out. Answers_map s' = Inr out
             \<and> (distinct (map Key (all_fields (Forms s0))) \<longrightarrow>
                  (\<forall>fld \<in> set (all_fields (Forms s0)). Required fld \<longrightarrow>
                     (Type fld = ''input'' \<or> Type fld = ''text'' \<or> Type fld = ''select'' \<longrightarrow>
                        (\<exists>v. out (Key fld) = Some (VStr v) \<and> v \<noteq> []))
                     \<and> (Type fld = ''multiselect'' \<longrightarrow>
                        (\<exists>t. out (Key fld) = Some (VStrs t) \<and> t \<noteq> [])))))"
    using completed_run_required[of X s0 s'] by (intro impI) (elim conjE)
  show ?thesis
    apply (intro conjI)
         apply (rule c[THEN conjunct1])
        apply (rule c[THEN conjunct2, THEN conjunct1])
       apply (rule c[THEN conjunct2, THEN conjunct2, THEN conjunct1])
      apply (rule c[THEN conjunct2, THEN conjunct2, THEN conjunct2, THEN conjunct1])
     apply (rule c[THEN conjunct2, THEN conjunct2, THEN conjunct2, THEN conjunct2])
    apply (rule r)
    done
qed

theorem validation_predicates_witness:
  "operator_validated (demo_ext (careful_operator type_Ada) required_survey None)
   \<and> snd (Run (demo_ext (careful_operator type_Ada) required_survey None) required_survey)
       = Inr (projr (snd (Run (demo_ext (careful_operator type_Ada) required_survey None)
                            required_survey)))
   \<and> distinct (map Key (all_fields (Forms required_survey)))
   \<and> map Required (all_fields (Forms required_survey)) = [True, True]
   \<and> map_sum id (\<lambda>out. map out [''name'', ''arch''])
        (Answers_map (projr (snd (Run (demo_ext (careful_operator type_Ada) required_survey None)
                                    required_survey))))
       = Inr [Some (VStr ''Ada''), Some (VStrs [''amd64''])]
   \<and> map (\<lambda>v. validation_fails
                 (snd (projr (NewInputField (demo_ext (careful_operator type_Ada) required_survey None)
                                required_survey (hd (all_fields (Forms required_survey))))))
                 (VStr v)) [[], ''Ada''] = [True, False]"
proof -
  have h1: "operator_validated (demo_ext (careful_operator type_Ada) required_survey None)"
    by (rule careful_operator_validated)
  have h2: "snd (Run (demo_ext (careful_operator type_Ada) required_survey None) required_survey)
       = Inr (projr (snd (Run (demo_ext (careful_operator type_Ada) required_survey None)
                            required_survey)))"
    by (simp add: eval_defs required_survey_def careful_operator_def session_validated_def Let_def)
  note t = validation_predicates[of "demo_ext (careful_operator type_Ada) required_survey None"
      required_survey "hd (all_fields (Forms required_survey))" required_survey
      "projr (snd (Run (demo_ext (careful_operator type_Ada) required_survey None) required_survey))"]
  have h3: "distinct (map Key (all_fields (Forms required_survey)))
     \<and> map Required (all_fields (Forms required_survey)) = [True, True]"
    by (simp add: all_fields_def Form_fields_def required_survey_def demo_survey_def
        demo_group_def demo_field_def)
  have h4: "map_sum id (\<lambda>out. map out [''name'', ''arch''])
        (Answers_map (projr (snd (Run (demo_ext (careful_operator type_Ada) required_survey None)
                                    required_survey))))
       = Inr [Some (VStr ''Ada''), Some (VStrs [''amd64''])]"
    by (simp add: eval_defs required_survey_def careful_operator_def session_validated_def Let_def)
  have h5: "map (\<lambda>v. validation_fails
                 (snd (projr (NewInputField (demo_ext (careful_operator type_Ada) required_survey None)
                                required_survey (hd (all_fields (Forms required_survey))))))
                 (VStr v)) [[], ''Ada''] = [True, False]"
    using t
    by (simp add: eval_defs all_fields_def Form_fields_def required_survey_def Let_def)
  show ?thesis using h1 h2 h3 h4 h5 by blast
qed




end
